theory Spec2Isabelle
  imports Main "HOL-Library.AList"
begin

section \<open>The facade module hpp.corbaserver and the script tests/robot.py\<close>

text \<open>
  Both source files are straight-line Python: import statements, one alias assignment,
  calls on objects that live outside the repository (the omniORB runtime, the generated
  IDL stubs, the remote robot server). The embedding gives each statement form of the
  two files a semantic function over an explicit interpreter state, and takes everything
  external as a parameter: an environment of four operations over a world state of any
  type. Every external operation either returns a value or raises, and may change the
  world. Each one is logged with its outcome, so that the order and the arguments of what
  the files do can be read off the log.
\<close>

subsection \<open>Values, exceptions, events\<close>

text \<open>
  The values the two files handle: the literals they write (strings, integers, the
  float literal \<open>0.001\<close> kept as written, mantissa 1 and decimal exponent -3, lists) and
  references to external objects (modules, classes, proxies, results of calls). Equal
  references are the same object.
\<close>

datatype pyval =
    PNone
  | PInt int
  | PFloat int int
  | PStr string
  | PList "pyval list"
  | PRef nat

text \<open>An exception: its class name and its message.\<close>

datatype exn = Exn string string

type_synonym outcome = "exn + pyval"

datatype event =
    EvImport string outcome
  | EvGetAttr pyval string outcome
  | EvCall pyval "pyval list" "(string \<times> pyval) list" outcome
  | EvInvoke pyval string "pyval list" "(string \<times> pyval) list" outcome

fun outcome_of :: "event \<Rightarrow> outcome" where
  "outcome_of (EvImport m r) = r"
| "outcome_of (EvGetAttr v a r) = r"
| "outcome_of (EvCall f as ks r) = r"
| "outcome_of (EvInvoke v m as ks r) = r"

text \<open>How a name of a module namespace came to be bound.\<close>

datatype origin = Imported | FromModule string | Assigned

subsection \<open>The external environment and the interpreter state\<close>

text \<open>
  \<open>import_module\<close> loads a module by the name the import statement writes,
  \<open>get_attr\<close> reads an attribute of an object, \<open>call_fn\<close> calls a callable object,
  \<open>invoke_method\<close> calls a method of an object by name: the attribute lookup of the bound
  method and its call, which Python performs back to back on the receiver.
\<close>

record 'w ext =
  import_module :: "string \<Rightarrow> 'w \<Rightarrow> outcome \<times> 'w"
  get_attr :: "pyval \<Rightarrow> string \<Rightarrow> 'w \<Rightarrow> outcome \<times> 'w"
  call_fn :: "pyval \<Rightarrow> pyval list \<Rightarrow> (string \<times> pyval) list \<Rightarrow> 'w \<Rightarrow> outcome \<times> 'w"
  invoke_method ::
    "pyval \<Rightarrow> string \<Rightarrow> pyval list \<Rightarrow> (string \<times> pyval) list \<Rightarrow> 'w \<Rightarrow> outcome \<times> 'w"

text \<open>
  The state of a running module body: its global namespace in binding order (a Python
  dict keeps insertion order, and rebinding a name keeps its place), the log of external
  operations, and the world.
\<close>

record 'w pstate =
  ns :: "(string \<times> origin \<times> pyval) list"
  trace :: "event list"
  world :: 'w

definition init :: "'w \<Rightarrow> 'w pstate" where
  "init w = \<lparr>ns = [], trace = [], world = w\<rparr>"

type_synonym 'w expr = "'w pstate \<Rightarrow> outcome \<times> 'w pstate"
type_synonym 'w stmt = "'w pstate \<Rightarrow> exn option \<times> 'w pstate"

definition external :: "('w \<Rightarrow> outcome \<times> 'w) \<Rightarrow> (outcome \<Rightarrow> event) \<Rightarrow> 'w expr" where
  "external f ev s =
     (case f (world s) of
        (r, w) \<Rightarrow> (r, s\<lparr>trace := trace s @ [ev r], world := w\<rparr>))"

definition bind_name :: "string \<Rightarrow> origin \<Rightarrow> pyval \<Rightarrow> 'w pstate \<Rightarrow> 'w pstate" where
  "bind_name n how v s = s\<lparr>ns := AList.update n (how, v) (ns s)\<rparr>"

subsection \<open>Expressions\<close>

definition lit :: "pyval \<Rightarrow> 'w expr" where
  "lit v s = (Inr v, s)"

definition name :: "string \<Rightarrow> 'w expr" where
  "name n s =
     (case map_of (ns s) n of
        None \<Rightarrow> (Inl (Exn ''NameError'' n), s)
      | Some (how, v) \<Rightarrow> (Inr v, s))"

definition attr :: "'w ext \<Rightarrow> 'w expr \<Rightarrow> string \<Rightarrow> 'w expr" where
  "attr X e a s =
     (case e s of
        (Inl x, s1) \<Rightarrow> (Inl x, s1)
      | (Inr v, s1) \<Rightarrow> external (get_attr X v a) (EvGetAttr v a) s1)"

text \<open>Operands are evaluated left to right; the first one that raises ends the evaluation.\<close>

fun eval_list :: "'w expr list \<Rightarrow> 'w pstate \<Rightarrow> (exn + pyval list) \<times> 'w pstate" where
  "eval_list [] s = (Inr [], s)"
| "eval_list (e # es) s =
     (case e s of
        (Inl x, s1) \<Rightarrow> (Inl x, s1)
      | (Inr v, s1) \<Rightarrow>
          (case eval_list es s1 of
             (Inl x, s2) \<Rightarrow> (Inl x, s2)
           | (Inr vs, s2) \<Rightarrow> (Inr (v # vs), s2)))"

definition list_display :: "'w expr list \<Rightarrow> 'w expr" where
  "list_display es s =
     (case eval_list es s of
        (Inl x, s1) \<Rightarrow> (Inl x, s1)
      | (Inr vs, s1) \<Rightarrow> (Inr (PList vs), s1))"

text \<open>
  A call \<open>f(a, ..., k=b, ...)\<close>: the callee, then the positional arguments, then the
  keyword arguments, then the call itself.
\<close>

definition call :: "'w ext \<Rightarrow> 'w expr \<Rightarrow> 'w expr list \<Rightarrow> (string \<times> 'w expr) list \<Rightarrow> 'w expr" where
  "call X f args kwargs s =
     (case f s of
        (Inl x, s1) \<Rightarrow> (Inl x, s1)
      | (Inr fv, s1) \<Rightarrow>
          (case eval_list args s1 of
             (Inl x, s2) \<Rightarrow> (Inl x, s2)
           | (Inr as, s2) \<Rightarrow>
               (case eval_list (map snd kwargs) s2 of
                  (Inl x, s3) \<Rightarrow> (Inl x, s3)
                | (Inr ks, s3) \<Rightarrow>
                    external (call_fn X fv as (zip (map fst kwargs) ks))
                      (EvCall fv as (zip (map fst kwargs) ks)) s3)))"

text \<open>A method call \<open>e.m(a, ..., k=b, ...)\<close>.\<close>

definition invoke ::
  "'w ext \<Rightarrow> 'w expr \<Rightarrow> string \<Rightarrow> 'w expr list \<Rightarrow> (string \<times> 'w expr) list \<Rightarrow> 'w expr" where
  "invoke X e m args kwargs s =
     (case e s of
        (Inl x, s1) \<Rightarrow> (Inl x, s1)
      | (Inr v, s1) \<Rightarrow>
          (case eval_list args s1 of
             (Inl x, s2) \<Rightarrow> (Inl x, s2)
           | (Inr as, s2) \<Rightarrow>
               (case eval_list (map snd kwargs) s2 of
                  (Inl x, s3) \<Rightarrow> (Inl x, s3)
                | (Inr ks, s3) \<Rightarrow>
                    external (invoke_method X v m as (zip (map fst kwargs) ks))
                      (EvInvoke v m as (zip (map fst kwargs) ks)) s3)))"

subsection \<open>Statements\<close>

text \<open>
  A statement changes the namespace only by the names it binds itself. What the import
  machinery and the imported modules do besides (resolving a name to a file, running the
  module, setting a submodule as an attribute of its package) happens in the world, behind
  \<open>import_module\<close>.
\<close>

text \<open>\<open>import m\<close> for an undotted module name, the only form the source uses.\<close>

definition import_stmt :: "'w ext \<Rightarrow> string \<Rightarrow> 'w stmt" where
  "import_stmt X m s =
     (case external (import_module X m) (EvImport m) s of
        (Inl x, s1) \<Rightarrow> (Some x, s1)
      | (Inr v, s1) \<Rightarrow> (None, bind_name m Imported v s1))"

text \<open>
  \<open>from m import a, b, ...\<close>: the module is loaded once, then each name is read from it
  and bound, in the order written. The read of a name is the environment's \<open>get_attr\<close> on
  the module. When it raises AttributeError, the statement raises ImportError in its place
  (\<open>cannot import name\<close>, as CPython's \<open>import_from\<close> does); any other exception of the
  read passes through unchanged.
\<close>

definition import_error :: "string \<Rightarrow> exn \<Rightarrow> exn" where
  "import_error n x =
     (case x of
        Exn c msg \<Rightarrow>
          if c = ''AttributeError'' then Exn ''ImportError'' (''cannot import name '' @ n)
          else x)"

fun import_names :: "'w ext \<Rightarrow> string \<Rightarrow> pyval \<Rightarrow> string list \<Rightarrow> 'w stmt" where
  "import_names X m mv [] s = (None, s)"
| "import_names X m mv (n # names) s =
     (case external (get_attr X mv n) (EvGetAttr mv n) s of
        (Inl x, s1) \<Rightarrow> (Some (import_error n x), s1)
      | (Inr v, s1) \<Rightarrow> import_names X m mv names (bind_name n (FromModule m) v s1))"

definition from_import :: "'w ext \<Rightarrow> string \<Rightarrow> string list \<Rightarrow> 'w stmt" where
  "from_import X m names s =
     (case external (import_module X m) (EvImport m) s of
        (Inl x, s1) \<Rightarrow> (Some x, s1)
      | (Inr mv, s1) \<Rightarrow> import_names X m mv names s1)"

definition assign :: "string \<Rightarrow> 'w expr \<Rightarrow> 'w stmt" where
  "assign n e s =
     (case e s of
        (Inl x, s1) \<Rightarrow> (Some x, s1)
      | (Inr v, s1) \<Rightarrow> (None, bind_name n Assigned v s1))"

text \<open>An expression statement: the value of the expression is dropped.\<close>

definition expr_stmt :: "'w expr \<Rightarrow> 'w stmt" where
  "expr_stmt e s =
     (case e s of
        (Inl x, s1) \<Rightarrow> (Some x, s1)
      | (Inr v, s1) \<Rightarrow> (None, s1))"

text \<open>
  A module body runs its statements in order. Neither file has a \<open>try\<close> statement, so
  the first exception ends the run and is its result.
\<close>

fun run :: "'w stmt list \<Rightarrow> 'w stmt" where
  "run [] s = (None, s)"
| "run (st # sts) s =
     (case st s of
        (Some x, s1) \<Rightarrow> (Some x, s1)
      | (None, s1) \<Rightarrow> run sts s1)"

subsection \<open>The two files\<close>

text \<open>\<^verbatim>\<open>src/hpp/corbaserver/__init__.py\<close>, statement by statement.\<close>

definition corbaserver_init :: "'w ext \<Rightarrow> 'w stmt list" where
  "corbaserver_init X =
     [import_stmt X ''omniORB'',
      expr_stmt (invoke X (name ''omniORB'') ''updateModule'' [lit (PStr ''hpp.corbaserver'')] []),
      import_stmt X ''robot_idl'',
      import_stmt X ''common_idl'',
      import_stmt X ''obstacle_idl'',
      import_stmt X ''problem_idl'',
      import_stmt X ''server_idl_idl'',
      from_import X ''.client'' [''Client''],
      from_import X ''.robot'' [''Robot''],
      assign ''Transform'' (attr X (attr X (name ''common_idl'') ''_0_hpp'') ''Transform''),
      from_import X ''.problem_solver'' [''ProblemSolver'', ''newProblem'', ''loadServerPlugin''],
      from_import X ''.benchmark'' [''Benchmark'']]"

text \<open>\<^verbatim>\<open>tests/robot.py\<close>, statement by statement.\<close>

definition tests_robot :: "'w ext \<Rightarrow> 'w stmt list" where
  "tests_robot X =
     [from_import X ''hpp.corbaserver'' [''Client''],
      assign ''cl'' (call X (name ''Client'') [] []),
      expr_stmt (invoke X (attr X (name ''cl'') ''robot'') ''createRobot''
        [lit (PStr ''test'')] []),
      expr_stmt (invoke X (attr X (name ''cl'') ''robot'') ''appendJoint''
        [lit (PStr ''test''), lit (PStr []), lit (PStr ''root_joint''), lit (PStr ''planar''),
         list_display [lit (PInt 0), lit (PInt 0), lit (PInt 0), lit (PInt 0), lit (PInt 0),
                       lit (PInt 0), lit (PInt 1)]] []),
      expr_stmt (invoke X (attr X (name ''cl'') ''robot'') ''createSphere''
        [lit (PStr ''root_body''), lit (PFloat 1 (- 3))] []),
      expr_stmt (invoke X (attr X (name ''cl'') ''robot'') ''addObjectToJoint''
        [lit (PStr ''test''), lit (PStr ''root_joint''), lit (PStr ''root_body''),
         list_display [lit (PInt 0), lit (PInt 0), lit (PInt 1), lit (PInt 0), lit (PInt 0),
                       lit (PInt 0), lit (PInt 1)]] []),
      expr_stmt (invoke X (attr X (name ''cl'') ''robot'') ''setRobot''
        [lit (PStr ''test'')] []),
      from_import X ''hpp.corbaserver.robot'' [''Robot''],
      assign ''robot'' (call X (name ''Robot'') [] [])]"

subsection \<open>Concrete environments\<close>

text \<open>
  An environment in which every external operation succeeds and returns a fresh
  reference; the world is the counter of references handed out.
\<close>

definition fresh :: "nat \<Rightarrow> outcome \<times> nat" where
  "fresh w = (Inr (PRef w), Suc w)"

definition ext_ok :: "nat ext" where
  "ext_ok = \<lparr>import_module = (\<lambda>m. fresh), get_attr = (\<lambda>v a. fresh),
             call_fn = (\<lambda>f as ks. fresh), invoke_method = (\<lambda>v m as ks. fresh)\<rparr>"


text \<open>The states the two files end in under \<open>ext_ok\<close>, started in world 0.\<close>

definition corbaserver_final :: "nat pstate" where
  "corbaserver_final =
     \<lparr>ns = [(''omniORB'', Imported, PRef 0), (''robot_idl'', Imported, PRef 2),
            (''common_idl'', Imported, PRef 3), (''obstacle_idl'', Imported, PRef 4),
            (''problem_idl'', Imported, PRef 5), (''server_idl_idl'', Imported, PRef 6),
            (''Client'', FromModule ''.client'', PRef 8),
            (''Robot'', FromModule ''.robot'', PRef 10),
            (''Transform'', Assigned, PRef 12),
            (''ProblemSolver'', FromModule ''.problem_solver'', PRef 14),
            (''newProblem'', FromModule ''.problem_solver'', PRef 15),
            (''loadServerPlugin'', FromModule ''.problem_solver'', PRef 16),
            (''Benchmark'', FromModule ''.benchmark'', PRef 18)],
      trace =
           [EvImport ''omniORB'' (Inr (PRef 0)),
            EvInvoke (PRef 0) ''updateModule'' [PStr ''hpp.corbaserver''] [] (Inr (PRef 1)),
            EvImport ''robot_idl'' (Inr (PRef 2)),
            EvImport ''common_idl'' (Inr (PRef 3)),
            EvImport ''obstacle_idl'' (Inr (PRef 4)),
            EvImport ''problem_idl'' (Inr (PRef 5)),
            EvImport ''server_idl_idl'' (Inr (PRef 6)),
            EvImport ''.client'' (Inr (PRef 7)),
            EvGetAttr (PRef 7) ''Client'' (Inr (PRef 8)),
            EvImport ''.robot'' (Inr (PRef 9)),
            EvGetAttr (PRef 9) ''Robot'' (Inr (PRef 10)),
            EvGetAttr (PRef 3) ''_0_hpp'' (Inr (PRef 11)),
            EvGetAttr (PRef 11) ''Transform'' (Inr (PRef 12)),
            EvImport ''.problem_solver'' (Inr (PRef 13)),
            EvGetAttr (PRef 13) ''ProblemSolver'' (Inr (PRef 14)),
            EvGetAttr (PRef 13) ''newProblem'' (Inr (PRef 15)),
            EvGetAttr (PRef 13) ''loadServerPlugin'' (Inr (PRef 16)),
            EvImport ''.benchmark'' (Inr (PRef 17)),
            EvGetAttr (PRef 17) ''Benchmark'' (Inr (PRef 18))],
      world = 19\<rparr>"

definition tests_robot_final :: "nat pstate" where
  "tests_robot_final =
     \<lparr>ns = [(''Client'', FromModule ''hpp.corbaserver'', PRef 1), (''cl'', Assigned, PRef 2),
            (''Robot'', FromModule ''hpp.corbaserver.robot'', PRef 14),
            (''robot'', Assigned, PRef 15)],
      trace =
           [EvImport ''hpp.corbaserver'' (Inr (PRef 0)),
            EvGetAttr (PRef 0) ''Client'' (Inr (PRef 1)),
            EvCall (PRef 1) [] [] (Inr (PRef 2)),
            EvGetAttr (PRef 2) ''robot'' (Inr (PRef 3)),
            EvInvoke (PRef 3) ''createRobot'' [PStr ''test''] [] (Inr (PRef 4)),
            EvGetAttr (PRef 2) ''robot'' (Inr (PRef 5)),
            EvInvoke (PRef 5) ''appendJoint''
              [PStr ''test'', PStr [], PStr ''root_joint'', PStr ''planar'',
               PList [PInt 0, PInt 0, PInt 0, PInt 0, PInt 0, PInt 0, PInt 1]] []
              (Inr (PRef 6)),
            EvGetAttr (PRef 2) ''robot'' (Inr (PRef 7)),
            EvInvoke (PRef 7) ''createSphere'' [PStr ''root_body'', PFloat 1 (- 3)] []
              (Inr (PRef 8)),
            EvGetAttr (PRef 2) ''robot'' (Inr (PRef 9)),
            EvInvoke (PRef 9) ''addObjectToJoint''
              [PStr ''test'', PStr ''root_joint'', PStr ''root_body'',
               PList [PInt 0, PInt 0, PInt 1, PInt 0, PInt 0, PInt 0, PInt 1]] []
              (Inr (PRef 10)),
            EvGetAttr (PRef 2) ''robot'' (Inr (PRef 11)),
            EvInvoke (PRef 11) ''setRobot'' [PStr ''test''] [] (Inr (PRef 12)),
            EvImport ''hpp.corbaserver.robot'' (Inr (PRef 13)),
            EvGetAttr (PRef 13) ''Robot'' (Inr (PRef 14)),
            EvCall (PRef 14) [] [] (Inr (PRef 15))],
      world = 16\<rparr>"

subsection \<open>What is read off a run\<close>

text \<open>The method calls of a log, in order: method name, positional and keyword arguments.\<close>

fun invocations :: "event list \<Rightarrow> (string \<times> pyval list \<times> (string \<times> pyval) list) list" where
  "invocations [] = []"
| "invocations (EvInvoke v m as ks r # es) = (m, as, ks) # invocations es"
| "invocations (EvImport m r # es) = invocations es"
| "invocations (EvGetAttr v a r # es) = invocations es"
| "invocations (EvCall f as ks r # es) = invocations es"

text \<open>The \<open>k\<close>-th positional argument of the first call of method \<open>m\<close>.\<close>

definition arg :: "string \<Rightarrow> nat \<Rightarrow> event list \<Rightarrow> pyval option" where
  "arg m k tr =
     (case map_of (invocations tr) m of
        None \<Rightarrow> None
      | Some (as, ks) \<Rightarrow> if k < length as then Some (as ! k) else None)"

text \<open>The modules a log loads, in order.\<close>

fun imported_modules :: "event list \<Rightarrow> string list" where
  "imported_modules [] = []"
| "imported_modules (EvImport m r # es) = m # imported_modules es"
| "imported_modules (EvGetAttr v a r # es) = imported_modules es"
| "imported_modules (EvCall f as ks r # es) = imported_modules es"
| "imported_modules (EvInvoke v m as ks r # es) = imported_modules es"

text \<open>
  The Python backend of omniidl names the module it generates from \<open>x.idl\<close>
  \<open>x_idl\<close>: a generated stub module is one whose name ends in \<open>_idl\<close>.
\<close>

definition generated_stub :: "string \<Rightarrow> bool" where
  "generated_stub m \<longleftrightarrow> 4 \<le> length m \<and> drop (length m - 4) m = ''_idl''"



text \<open>
  The 7-element list arguments of the method calls of a log (a configuration: three
  translation components, then a quaternion), each with the method it is passed to, and
  the squared norm of the last four components of such a list when they are integers.
\<close>

fun list_items :: "pyval \<Rightarrow> pyval list list" where
  "list_items (PList xs) = [xs]"
| "list_items v = []"

definition config_args :: "event list \<Rightarrow> (string \<times> pyval list) list" where
  "config_args tr =
     concat (map (\<lambda>(m, as, ks). map (Pair m) (filter (\<lambda>xs. length xs = 7) (concat (map list_items as))))
               (invocations tr))"

fun square :: "pyval \<Rightarrow> int option" where
  "square (PInt i) = Some (i * i)"
| "square v = None"

definition quat_norm2 :: "pyval list \<Rightarrow> int option" where
  "quat_norm2 xs = map_option sum_list (those (map square (drop 3 xs)))"

subsection \<open>Properties of logs\<close>

text \<open>
  A property \<open>P\<close> of the log that holds while a program runs normally, with a property
  \<open>E x\<close> that holds when it stops raising \<open>x\<close>: for expressions, for statements, and the
  condition on one kind of event that lets an external operation keep them.
\<close>

definition spec_e ::
  "(event list \<Rightarrow> bool) \<Rightarrow> (exn \<Rightarrow> event list \<Rightarrow> bool) \<Rightarrow>
   ('w pstate \<Rightarrow> (exn + 'a) \<times> 'w pstate) \<Rightarrow> bool" where
  "spec_e P E f \<longleftrightarrow>
     (\<forall>s. P (trace s) \<longrightarrow>
        (case f s of (Inl x, s') \<Rightarrow> E x (trace s') | (Inr v, s') \<Rightarrow> P (trace s')))"

definition spec_s ::
  "(event list \<Rightarrow> bool) \<Rightarrow> (exn \<Rightarrow> event list \<Rightarrow> bool) \<Rightarrow> 'w stmt \<Rightarrow> bool" where
  "spec_s P E st \<longleftrightarrow>
     (\<forall>s. P (trace s) \<longrightarrow>
        (case st s of (Some x, s') \<Rightarrow> E x (trace s') | (None, s') \<Rightarrow> P (trace s')))"

definition ok_ev ::
  "(event list \<Rightarrow> bool) \<Rightarrow> (exn \<Rightarrow> event list \<Rightarrow> bool) \<Rightarrow> (outcome \<Rightarrow> event) \<Rightarrow> bool" where
  "ok_ev P E ev \<longleftrightarrow>
     (\<forall>tr r. P tr \<longrightarrow> (case r of Inl x \<Rightarrow> E x (tr @ [ev r]) | Inr v \<Rightarrow> P (tr @ [ev r])))"

text \<open>Every operation of a log returned.\<close>

definition all_ok :: "event list \<Rightarrow> bool" where
  "all_ok tr = list_all (\<lambda>e. \<not> isl (outcome_of e)) tr"

text \<open>
  The exception \<open>y\<close> is what an operation raised, or what a from-import makes of what its
  read of a name raised.
\<close>

fun raised_as :: "exn \<Rightarrow> event \<Rightarrow> bool" where
  "raised_as y (EvGetAttr v n r) =
     (r = Inl y \<or> (case r of Inl x \<Rightarrow> y = import_error n x | Inr u \<Rightarrow> False))"
| "raised_as y (EvImport m r) = (r = Inl y)"
| "raised_as y (EvCall f as ks r) = (r = Inl y)"
| "raised_as y (EvInvoke v m as ks r) = (r = Inl y)"

text \<open>At most the last operation of a log raised, and then \<open>x\<close> is what it raised as.\<close>

definition ends_raising :: "exn \<Rightarrow> event list \<Rightarrow> bool" where
  "ends_raising x tr \<longleftrightarrow>
     all_ok tr \<or> (tr \<noteq> [] \<and> all_ok (butlast tr) \<and> raised_as x (last tr))"

text \<open>The operations that read an attribute.\<close>

fun attribute_read :: "event \<Rightarrow> bool" where
  "attribute_read (EvGetAttr v n r) = True"
| "attribute_read (EvImport m r) = False"
| "attribute_read (EvCall f as ks r) = False"
| "attribute_read (EvInvoke v m as ks r) = False"

text \<open>The keyword arguments an operation was given.\<close>

fun kwargs_of :: "event \<Rightarrow> (string \<times> pyval) list" where
  "kwargs_of (EvImport m r) = []"
| "kwargs_of (EvGetAttr v a r) = []"
| "kwargs_of (EvCall f as ks r) = ks"
| "kwargs_of (EvInvoke v m as ks r) = ks"

text \<open>
  An environment like \<open>ext_ok\<close> except that the method createSphere raises, and the state
  \<^verbatim>\<open>tests/robot.py\<close> stops in under it.
\<close>

definition ext_sphere_fails :: "nat ext" where
  "ext_sphere_fails =
     ext_ok\<lparr>invoke_method :=
       (\<lambda>v m as ks w.
          if m = ''createSphere'' then (Inl (Exn ''hpp.Error'' ''createSphere''), Suc w)
          else fresh w)\<rparr>"

text \<open>
  An environment like \<open>ext_ok\<close> except that no object has an attribute \<open>Client\<close>, and the
  state \<^verbatim>\<open>tests/robot.py\<close> stops in under it.
\<close>

definition ext_no_client :: "nat ext" where
  "ext_no_client =
     ext_ok\<lparr>get_attr :=
       (\<lambda>v a w.
          if a = ''Client'' then (Inl (Exn ''AttributeError'' ''Client''), Suc w)
          else fresh w)\<rparr>"

definition tests_robot_no_client :: "nat pstate" where
  "tests_robot_no_client =
     \<lparr>ns = [],
      trace = [EvImport ''hpp.corbaserver'' (Inr (PRef 0)),
               EvGetAttr (PRef 0) ''Client'' (Inl (Exn ''AttributeError'' ''Client''))],
      world = 2\<rparr>"

definition tests_robot_stopped :: "nat pstate" where
  "tests_robot_stopped =
     \<lparr>ns = [(''Client'', FromModule ''hpp.corbaserver'', PRef 1), (''cl'', Assigned, PRef 2)],
      trace =
           [EvImport ''hpp.corbaserver'' (Inr (PRef 0)),
            EvGetAttr (PRef 0) ''Client'' (Inr (PRef 1)),
            EvCall (PRef 1) [] [] (Inr (PRef 2)),
            EvGetAttr (PRef 2) ''robot'' (Inr (PRef 3)),
            EvInvoke (PRef 3) ''createRobot'' [PStr ''test''] [] (Inr (PRef 4)),
            EvGetAttr (PRef 2) ''robot'' (Inr (PRef 5)),
            EvInvoke (PRef 5) ''appendJoint''
              [PStr ''test'', PStr [], PStr ''root_joint'', PStr ''planar'',
               PList [PInt 0, PInt 0, PInt 0, PInt 0, PInt 0, PInt 0, PInt 1]] []
              (Inr (PRef 6)),
            EvGetAttr (PRef 2) ''robot'' (Inr (PRef 7)),
            EvInvoke (PRef 7) ''createSphere'' [PStr ''root_body'', PFloat 1 (- 3)] []
              (Inl (Exn ''hpp.Error'' ''createSphere''))],
      world = 9\<rparr>"

subsection \<open>Changing what method calls return\<close>

text \<open>
  An environment whose method calls succeed or raise as those of \<open>X\<close> do and leave the
  same world, but return \<open>g\<close> of the receiver, the method, the arguments, the world and the
  value \<open>X\<close> returns. Its other three operations are those of \<open>X\<close>.
\<close>

definition tamper ::
  "(pyval \<Rightarrow> string \<Rightarrow> pyval list \<Rightarrow> 'w \<Rightarrow> pyval \<Rightarrow> pyval) \<Rightarrow> 'w ext \<Rightarrow> 'w ext" where
  "tamper g X =
     X\<lparr>invoke_method :=
       (\<lambda>v m as ks w.
          case invoke_method X v m as ks w of
            (Inl x, w') \<Rightarrow> (Inl x, w')
          | (Inr u, w') \<Rightarrow> (Inr (g v m as w u), w'))\<rparr>"

text \<open>An event without the value a method call returned.\<close>

fun erase :: "event \<Rightarrow> event" where
  "erase (EvInvoke v m as ks (Inr u)) = EvInvoke v m as ks (Inr PNone)"
| "erase (EvInvoke v m as ks (Inl x)) = EvInvoke v m as ks (Inl x)"
| "erase (EvImport m r) = EvImport m r"
| "erase (EvGetAttr v a r) = EvGetAttr v a r"
| "erase (EvCall f as ks r) = EvCall f as ks r"

text \<open>
  Two states that differ at most in the values method calls returned to the log, and two
  programs that take such states to such states: with the same result, or with results
  that are the same exception or both some value.
\<close>

definition sim :: "'w pstate \<Rightarrow> 'w pstate \<Rightarrow> bool" where
  "sim s t \<longleftrightarrow> ns s = ns t \<and> world s = world t \<and> map erase (trace s) = map erase (trace t)"

definition rel_e ::
  "('w pstate \<Rightarrow> 'a \<times> 'w pstate) \<Rightarrow> ('w pstate \<Rightarrow> 'a \<times> 'w pstate) \<Rightarrow> bool" where
  "rel_e f f' \<longleftrightarrow>
     (\<forall>s s'. sim s s' \<longrightarrow> fst (f s) = fst (f' s') \<and> sim (snd (f s)) (snd (f' s')))"

definition rel_drop :: "'w expr \<Rightarrow> 'w expr \<Rightarrow> bool" where
  "rel_drop f f' \<longleftrightarrow>
     (\<forall>s s'. sim s s' \<longrightarrow>
        map_sum id (\<lambda>v. ()) (fst (f s)) = map_sum id (\<lambda>v. ()) (fst (f' s')) \<and>
        sim (snd (f s)) (snd (f' s')))"

section \<open>Running the two files\<close>

lemmas sem_defs = external_def bind_name_def lit_def name_def attr_def list_display_def
  call_def invoke_def import_stmt_def from_import_def assign_def expr_stmt_def

subsection \<open>The runs under \<open>ext_ok\<close>\<close>

lemma run_step: "st s = (None, s1) \<Longrightarrow> run sts s1 = r \<Longrightarrow> run (st # sts) s = r"
  by simp

lemma corbaserver_init_ext_ok:
  "run (corbaserver_init ext_ok) (init 0) = (None, corbaserver_final)"
  unfolding corbaserver_init_def init_def
  apply (rule run_step, simp add: ext_ok_def fresh_def sem_defs)+
  apply (simp add: corbaserver_final_def)
  done

lemma tests_robot_ext_ok:
  "run (tests_robot ext_ok) (init 0) = (None, tests_robot_final)"
  unfolding tests_robot_def init_def
  apply (rule run_step, simp add: ext_ok_def fresh_def sem_defs)+
  apply (simp add: tests_robot_final_def)
  done

subsection \<open>What a statement that completes has done\<close>

lemma external_ok:
  "external f ev s = (Inr v, s') \<Longrightarrow>
     \<exists>w. f (world s) = (Inr v, w) \<and> ns s' = ns s \<and> trace s' = trace s @ [ev (Inr v)] \<and>
         world s' = w"
  by (auto simp: external_def split: prod.splits)

lemma run_ok_ConsE:
  "run (st # sts) s = (None, s') \<Longrightarrow>
     (\<And>s1. st s = (None, s1) \<Longrightarrow> run sts s1 = (None, s') \<Longrightarrow> P) \<Longrightarrow> P"
  by (auto split: prod.splits option.splits)

lemma import_stmt_ok:
  "import_stmt X m s = (None, s') \<Longrightarrow>
     \<exists>v. ns s' = AList.update m (Imported, v) (ns s) \<and> trace s' = trace s @ [EvImport m (Inr v)]"
  by (auto simp: import_stmt_def bind_name_def split: prod.splits sum.splits dest!: external_ok)

lemma from_import1_ok:
  "from_import X m [n] s = (None, s') \<Longrightarrow>
     \<exists>mv v. ns s' = AList.update n (FromModule m, v) (ns s) \<and>
       trace s' = trace s @ [EvImport m (Inr mv), EvGetAttr mv n (Inr v)]"
  by (auto simp: from_import_def bind_name_def split: prod.splits sum.splits dest!: external_ok)

lemma from_import3_ok:
  "from_import X m [n1, n2, n3] s = (None, s') \<Longrightarrow>
     \<exists>mv v1 v2 v3.
       ns s' = AList.update n3 (FromModule m, v3) (AList.update n2 (FromModule m, v2)
                 (AList.update n1 (FromModule m, v1) (ns s))) \<and>
       trace s' = trace s @ [EvImport m (Inr mv), EvGetAttr mv n1 (Inr v1),
                             EvGetAttr mv n2 (Inr v2), EvGetAttr mv n3 (Inr v3)]"
  by (auto simp: from_import_def bind_name_def split: prod.splits sum.splits dest!: external_ok)

lemma assign_ok:
  "assign n e s = (None, s') \<Longrightarrow> \<exists>v s1. e s = (Inr v, s1) \<and> s' = bind_name n Assigned v s1"
  by (auto simp: assign_def split: prod.splits sum.splits)

lemma call0_ok:
  "assign n (call X (name c) [] []) s = (None, s') \<Longrightarrow> map_of (ns s) c = Some (how, cv) \<Longrightarrow>
     \<exists>v. ns s' = AList.update n (Assigned, v) (ns s) \<and>
       trace s' = trace s @ [EvCall cv [] [] (Inr v)]"
  by (auto simp: assign_def call_def name_def bind_name_def split: prod.splits sum.splits
      dest!: external_ok)

lemma method_stmt_ok:
  "expr_stmt (invoke X (attr X (name c) a) m args []) s = (None, s') \<Longrightarrow>
   map_of (ns s) c = Some (how, cv) \<Longrightarrow> (\<And>t. eval_list args t = (Inr as, t)) \<Longrightarrow>
     \<exists>h v. ns s' = ns s \<and>
       trace s' = trace s @ [EvGetAttr cv a (Inr h), EvInvoke h m as [] (Inr v)]"
  by (auto simp: expr_stmt_def invoke_def attr_def name_def split: prod.splits sum.splits
      dest!: external_ok)

lemma name_method_stmt_ok:
  "expr_stmt (invoke X (name c) m args []) s = (None, s') \<Longrightarrow>
   map_of (ns s) c = Some (how, cv) \<Longrightarrow> (\<And>t. eval_list args t = (Inr as, t)) \<Longrightarrow>
     \<exists>v. ns s' = ns s \<and> trace s' = trace s @ [EvInvoke cv m as [] (Inr v)]"
  by (auto simp: expr_stmt_def invoke_def name_def split: prod.splits sum.splits
      dest!: external_ok)

lemma assign_attr2_ok:
  "assign n (attr X (attr X (name c) a) b) s = (None, s') \<Longrightarrow>
   map_of (ns s) c = Some (how, cv) \<Longrightarrow>
     \<exists>h v. ns s' = AList.update n (Assigned, v) (ns s) \<and>
       trace s' = trace s @ [EvGetAttr cv a (Inr h), EvGetAttr h b (Inr v)]"
  by (auto simp: assign_def attr_def name_def bind_name_def split: prod.splits sum.splits
      dest!: external_ok)

subsection \<open>The runs that complete\<close>

text \<open>
  Whatever the environment, a run of \<^verbatim>\<open>tests/robot.py\<close> that completes has performed
  exactly these operations and bound exactly these names.
\<close>

lemma tests_robot_ok:
  assumes "run (tests_robot X) (init w) = (None, s)"
  shows "\<exists>m C c h1 v1 h2 v2 h3 v3 h4 v4 h5 v5 m2 R r.
    trace s =
       [EvImport ''hpp.corbaserver'' (Inr m),
        EvGetAttr m ''Client'' (Inr C),
        EvCall C [] [] (Inr c),
        EvGetAttr c ''robot'' (Inr h1),
        EvInvoke h1 ''createRobot'' [PStr ''test''] [] (Inr v1),
        EvGetAttr c ''robot'' (Inr h2),
        EvInvoke h2 ''appendJoint''
         [PStr ''test'', PStr [], PStr ''root_joint'', PStr ''planar'',
          PList [PInt 0, PInt 0, PInt 0, PInt 0, PInt 0, PInt 0, PInt 1]]
         [] (Inr v2),
        EvGetAttr c ''robot'' (Inr h3),
        EvInvoke h3 ''createSphere''
         [PStr ''root_body'', PFloat 1 (- 3)] [] (Inr v3),
        EvGetAttr c ''robot'' (Inr h4),
        EvInvoke h4 ''addObjectToJoint''
         [PStr ''test'', PStr ''root_joint'', PStr ''root_body'',
          PList [PInt 0, PInt 0, PInt 1, PInt 0, PInt 0, PInt 0, PInt 1]]
         [] (Inr v4),
        EvGetAttr c ''robot'' (Inr h5),
        EvInvoke h5 ''setRobot'' [PStr ''test''] [] (Inr v5),
        EvImport ''hpp.corbaserver.robot'' (Inr m2),
        EvGetAttr m2 ''Robot'' (Inr R),
        EvCall R [] [] (Inr r)] \<and>
    ns s = [(''Client'', FromModule ''hpp.corbaserver'', C), (''cl'', Assigned, c),
            (''Robot'', FromModule ''hpp.corbaserver.robot'', R), (''robot'', Assigned, r)]"
  using assms unfolding tests_robot_def
  apply (elim run_ok_ConsE)
  apply (drule from_import1_ok)
  apply (clarsimp simp: init_def)
  apply (drule call0_ok, simp)
  apply clarsimp
  apply (drule method_stmt_ok, simp, simp add: lit_def list_display_def)
  apply clarsimp
  apply (drule method_stmt_ok, simp, simp add: lit_def list_display_def)
  apply clarsimp
  apply (drule method_stmt_ok, simp, simp add: lit_def list_display_def)
  apply clarsimp
  apply (drule method_stmt_ok, simp, simp add: lit_def list_display_def)
  apply clarsimp
  apply (drule method_stmt_ok, simp, simp add: lit_def list_display_def)
  apply clarsimp
  apply (drule from_import1_ok)
  apply clarsimp
  apply (drule call0_ok, simp)
  apply clarsimp
  done

text \<open>The same for the module body of \<open>hpp.corbaserver\<close>.\<close>

lemma corbaserver_init_ok:
  assumes "run (corbaserver_init X) (init w) = (None, s)"
  shows "\<exists>orb u ri ci oi pi si mc C mr R h T mp PS nP lSP mb B.
    trace s =
       [EvImport ''omniORB'' (Inr orb),
        EvInvoke orb ''updateModule'' [PStr ''hpp.corbaserver''] [] (Inr u),
        EvImport ''robot_idl'' (Inr ri),
        EvImport ''common_idl'' (Inr ci),
        EvImport ''obstacle_idl'' (Inr oi),
        EvImport ''problem_idl'' (Inr pi),
        EvImport ''server_idl_idl'' (Inr si),
        EvImport ''.client'' (Inr mc),
        EvGetAttr mc ''Client'' (Inr C),
        EvImport ''.robot'' (Inr mr),
        EvGetAttr mr ''Robot'' (Inr R),
        EvGetAttr ci ''_0_hpp'' (Inr h),
        EvGetAttr h ''Transform'' (Inr T),
        EvImport ''.problem_solver'' (Inr mp),
        EvGetAttr mp ''ProblemSolver'' (Inr PS),
        EvGetAttr mp ''newProblem'' (Inr nP),
        EvGetAttr mp ''loadServerPlugin'' (Inr lSP),
        EvImport ''.benchmark'' (Inr mb),
        EvGetAttr mb ''Benchmark'' (Inr B)] \<and>
    ns s = [(''omniORB'', Imported, orb), (''robot_idl'', Imported, ri),
         (''common_idl'', Imported, ci),
         (''obstacle_idl'', Imported, oi),
         (''problem_idl'', Imported, pi),
         (''server_idl_idl'', Imported, si),
         (''Client'', FromModule ''.client'', C),
         (''Robot'', FromModule ''.robot'', R),
         (''Transform'', Assigned, T),
         (''ProblemSolver'', FromModule ''.problem_solver'', PS),
         (''newProblem'', FromModule ''.problem_solver'', nP),
         (''loadServerPlugin'', FromModule ''.problem_solver'', lSP),
         (''Benchmark'', FromModule ''.benchmark'', B)]"
  using assms unfolding corbaserver_init_def
  apply (elim run_ok_ConsE)
  apply (drule import_stmt_ok)
  apply (clarsimp simp: init_def)
  apply (drule name_method_stmt_ok, simp, simp add: lit_def)
  apply clarsimp
  apply (drule import_stmt_ok, clarsimp)
  apply (drule import_stmt_ok, clarsimp)
  apply (drule import_stmt_ok, clarsimp)
  apply (drule import_stmt_ok, clarsimp)
  apply (drule import_stmt_ok, clarsimp)
  apply (drule from_import1_ok, clarsimp)
  apply (drule from_import1_ok, clarsimp)
  apply (drule assign_attr2_ok, simp)
  apply clarsimp
  apply (drule from_import3_ok, clarsimp)
  apply (drule from_import1_ok, clarsimp)
  done

section \<open>The test script\<close>

text \<open>
  C2. A run of \<^verbatim>\<open>tests/robot.py\<close> that completes has performed, in this order and nothing
  else: the import of \<open>Client\<close> from \<open>hpp.corbaserver\<close>, the construction of a client
  \<open>c\<close>, then five times the read of the attribute \<open>robot\<close> of \<open>c\<close> followed by a method
  call on the handle just read (createRobot, appendJoint, createSphere, addObjectToJoint,
  setRobot), then the import of \<open>Robot\<close> from \<open>hpp.corbaserver.robot\<close> and its construction.
\<close>

theorem tests_robot_trace:
  assumes "run (tests_robot X) (init w) = (None, s)"
  shows "\<exists>m C c h1 v1 h2 v2 h3 v3 h4 v4 h5 v5 m2 R r.
    trace s =
       [EvImport ''hpp.corbaserver'' (Inr m),
        EvGetAttr m ''Client'' (Inr C),
        EvCall C [] [] (Inr c),
        EvGetAttr c ''robot'' (Inr h1),
        EvInvoke h1 ''createRobot'' [PStr ''test''] [] (Inr v1),
        EvGetAttr c ''robot'' (Inr h2),
        EvInvoke h2 ''appendJoint''
         [PStr ''test'', PStr [], PStr ''root_joint'', PStr ''planar'',
          PList [PInt 0, PInt 0, PInt 0, PInt 0, PInt 0, PInt 0, PInt 1]]
         [] (Inr v2),
        EvGetAttr c ''robot'' (Inr h3),
        EvInvoke h3 ''createSphere''
         [PStr ''root_body'', PFloat 1 (- 3)] [] (Inr v3),
        EvGetAttr c ''robot'' (Inr h4),
        EvInvoke h4 ''addObjectToJoint''
         [PStr ''test'', PStr ''root_joint'', PStr ''root_body'',
          PList [PInt 0, PInt 0, PInt 1, PInt 0, PInt 0, PInt 0, PInt 1]]
         [] (Inr v4),
        EvGetAttr c ''robot'' (Inr h5),
        EvInvoke h5 ''setRobot'' [PStr ''test''] [] (Inr v5),
        EvImport ''hpp.corbaserver.robot'' (Inr m2),
        EvGetAttr m2 ''Robot'' (Inr R),
        EvCall R [] [] (Inr r)]"
proof -
  from tests_robot_ok [OF assms] obtain m C c h1 v1 h2 v2 h3 v3 h4 v4 h5 v5 m2 R r
    where "trace s =
       [EvImport ''hpp.corbaserver'' (Inr m),
        EvGetAttr m ''Client'' (Inr C),
        EvCall C [] [] (Inr c),
        EvGetAttr c ''robot'' (Inr h1),
        EvInvoke h1 ''createRobot'' [PStr ''test''] [] (Inr v1),
        EvGetAttr c ''robot'' (Inr h2),
        EvInvoke h2 ''appendJoint''
         [PStr ''test'', PStr [], PStr ''root_joint'', PStr ''planar'',
          PList [PInt 0, PInt 0, PInt 0, PInt 0, PInt 0, PInt 0, PInt 1]]
         [] (Inr v2),
        EvGetAttr c ''robot'' (Inr h3),
        EvInvoke h3 ''createSphere''
         [PStr ''root_body'', PFloat 1 (- 3)] [] (Inr v3),
        EvGetAttr c ''robot'' (Inr h4),
        EvInvoke h4 ''addObjectToJoint''
         [PStr ''test'', PStr ''root_joint'', PStr ''root_body'',
          PList [PInt 0, PInt 0, PInt 1, PInt 0, PInt 0, PInt 0, PInt 1]]
         [] (Inr v4),
        EvGetAttr c ''robot'' (Inr h5),
        EvInvoke h5 ''setRobot'' [PStr ''test''] [] (Inr v5),
        EvImport ''hpp.corbaserver.robot'' (Inr m2),
        EvGetAttr m2 ''Robot'' (Inr R),
        EvCall R [] [] (Inr r)]"
    by (elim exE conjE)
  then show ?thesis
    by (intro exI)
qed

theorem tests_robot_trace_witness:
  "run (tests_robot ext_ok) (init 0) = (None, tests_robot_final) \<and>
   (\<exists>c h1 h2 h3 h4 h5.
      map (\<lambda>i. trace tests_robot_final ! i) [2, 3, 5, 7, 9, 11] =
        [EvCall (PRef 1) [] [] (Inr c), EvGetAttr c ''robot'' (Inr h1),
         EvGetAttr c ''robot'' (Inr h2), EvGetAttr c ''robot'' (Inr h3),
         EvGetAttr c ''robot'' (Inr h4), EvGetAttr c ''robot'' (Inr h5)]) \<and>
   map fst (invocations (trace tests_robot_final)) =
     [''createRobot'', ''appendJoint'', ''createSphere'', ''addObjectToJoint'', ''setRobot'']"
  using tests_robot_trace [OF tests_robot_ext_ok] tests_robot_ext_ok
  by (auto simp: tests_robot_final_def)

text \<open>
  C9. In a run that completes, the robot name passed to appendJoint and to setRobot is
  the string "test" passed to createRobot, the joint name passed to addObjectToJoint is
  the string "root_joint" passed to appendJoint, and the body name passed to
  addObjectToJoint is the string "root_body" passed to createSphere.
\<close>

theorem tests_robot_names_consistent:
  assumes "run (tests_robot X) (init w) = (None, s)"
  shows "arg ''createRobot'' 0 (trace s) = Some (PStr ''test'') \<and>
         arg ''appendJoint'' 0 (trace s) = arg ''createRobot'' 0 (trace s) \<and>
         arg ''setRobot'' 0 (trace s) = arg ''createRobot'' 0 (trace s) \<and>
         arg ''appendJoint'' 2 (trace s) = Some (PStr ''root_joint'') \<and>
         arg ''addObjectToJoint'' 1 (trace s) = arg ''appendJoint'' 2 (trace s) \<and>
         arg ''createSphere'' 0 (trace s) = Some (PStr ''root_body'') \<and>
         arg ''addObjectToJoint'' 2 (trace s) = arg ''createSphere'' 0 (trace s)"
proof -
  from tests_robot_ok [OF assms] obtain tr where tr: "trace s = tr"
    and calls: "invocations tr =
      [(''createRobot'', [PStr ''test''], []),
       (''appendJoint'', [PStr ''test'', PStr [], PStr ''root_joint'', PStr ''planar'',
          PList [PInt 0, PInt 0, PInt 0, PInt 0, PInt 0, PInt 0, PInt 1]], []),
       (''createSphere'', [PStr ''root_body'', PFloat 1 (- 3)], []),
       (''addObjectToJoint'', [PStr ''test'', PStr ''root_joint'', PStr ''root_body'',
          PList [PInt 0, PInt 0, PInt 1, PInt 0, PInt 0, PInt 0, PInt 1]], []),
       (''setRobot'', [PStr ''test''], [])]"
    by (elim exE conjE) simp
  show ?thesis
    unfolding tr arg_def calls by simp
qed

theorem tests_robot_names_consistent_witness:
  "run (tests_robot ext_ok) (init 0) = (None, tests_robot_final) \<and>
   arg ''setRobot'' 0 (trace tests_robot_final) = Some (PStr ''test'') \<and>
   arg ''addObjectToJoint'' 1 (trace tests_robot_final) = Some (PStr ''root_joint'') \<and>
   arg ''addObjectToJoint'' 2 (trace tests_robot_final) = Some (PStr ''root_body'')"
  using tests_robot_names_consistent [OF tests_robot_ext_ok] tests_robot_ext_ok
  by simp

text \<open>
  C10. In a run that completes, exactly two 7-element configurations are passed, one to
  appendJoint and one to addObjectToJoint, and in each the squares of the last four
  components sum to 1 over the integers.
\<close>

theorem tests_robot_unit_quaternions:
  assumes "run (tests_robot X) (init w) = (None, s)"
  shows "map (\<lambda>(m, xs). (m, quat_norm2 xs)) (config_args (trace s)) =
           [(''appendJoint'', Some 1), (''addObjectToJoint'', Some 1)]"
proof -
  from tests_robot_ok [OF assms] obtain tr where tr: "trace s = tr"
    and calls: "invocations tr =
      [(''createRobot'', [PStr ''test''], []),
       (''appendJoint'', [PStr ''test'', PStr [], PStr ''root_joint'', PStr ''planar'',
          PList [PInt 0, PInt 0, PInt 0, PInt 0, PInt 0, PInt 0, PInt 1]], []),
       (''createSphere'', [PStr ''root_body'', PFloat 1 (- 3)], []),
       (''addObjectToJoint'', [PStr ''test'', PStr ''root_joint'', PStr ''root_body'',
          PList [PInt 0, PInt 0, PInt 1, PInt 0, PInt 0, PInt 0, PInt 1]], []),
       (''setRobot'', [PStr ''test''], [])]"
    by (elim exE conjE) simp
  show ?thesis
    unfolding tr config_args_def calls by (simp add: quat_norm2_def)
qed

theorem tests_robot_unit_quaternions_witness:
  "run (tests_robot ext_ok) (init 0) = (None, tests_robot_final) \<and>
   map (\<lambda>(m, xs). (m, quat_norm2 xs)) (config_args (trace tests_robot_final)) =
     [(''appendJoint'', Some 1), (''addObjectToJoint'', Some 1)]"
  using tests_robot_unit_quaternions [OF tests_robot_ext_ok] tests_robot_ext_ok
  by simp

section \<open>The facade module\<close>




lemma generated_stub_names:
  "generated_stub ''robot_idl''" "generated_stub ''common_idl''"
  "generated_stub ''obstacle_idl''" "generated_stub ''problem_idl''"
  "generated_stub ''server_idl_idl''" "\<not> generated_stub ''omniORB''"
  "\<not> generated_stub ''.client''" "\<not> generated_stub ''.robot''"
  "\<not> generated_stub ''.problem_solver''" "\<not> generated_stub ''.benchmark''"
  by code_simp+

text \<open>
  C3. A module body that completes has loaded ten modules; the generated stub modules
  among them are exactly robot_idl, common_idl, obstacle_idl, problem_idl and
  server_idl_idl.
\<close>

theorem corbaserver_stub_imports:
  assumes "run (corbaserver_init X) (init w) = (None, s)"
  shows "imported_modules (trace s) =
           [''omniORB'', ''robot_idl'', ''common_idl'', ''obstacle_idl'', ''problem_idl'',
            ''server_idl_idl'', ''.client'', ''.robot'', ''.problem_solver'', ''.benchmark''] \<and>
         filter generated_stub (imported_modules (trace s)) =
           [''robot_idl'', ''common_idl'', ''obstacle_idl'', ''problem_idl'', ''server_idl_idl'']"
proof -
  from corbaserver_init_ok [OF assms]
  have "imported_modules (trace s) =
           [''omniORB'', ''robot_idl'', ''common_idl'', ''obstacle_idl'', ''problem_idl'',
            ''server_idl_idl'', ''.client'', ''.robot'', ''.problem_solver'', ''.benchmark'']"
    by (elim exE conjE) simp
  then show ?thesis
    by (simp add: generated_stub_names)
qed

theorem corbaserver_stub_imports_witness:
  "run (corbaserver_init ext_ok) (init 0) = (None, corbaserver_final) \<and>
   filter generated_stub (imported_modules (trace corbaserver_final)) =
     [''robot_idl'', ''common_idl'', ''obstacle_idl'', ''problem_idl'', ''server_idl_idl'']"
  using corbaserver_stub_imports [OF corbaserver_init_ext_ok] corbaserver_init_ext_ok
  by blast

lemma run_append:
  "run (xs @ ys) s =
     (case run xs s of (Some x, s1) \<Rightarrow> (Some x, s1) | (None, s1) \<Rightarrow> run ys s1)"
  by (induction xs arbitrary: s) (auto split: prod.splits option.splits)

lemma corbaserver_init_split:
  "corbaserver_init X =
     take 9 (corbaserver_init X) @
     [assign ''Transform'' (attr X (attr X (name ''common_idl'') ''_0_hpp'') ''Transform''),
      from_import X ''.problem_solver'' [''ProblemSolver'', ''newProblem'', ''loadServerPlugin''],
      from_import X ''.benchmark'' [''Benchmark'']]"
  by (simp add: corbaserver_init_def)

text \<open>
  C4. In a module body that completes, the object bound to \<open>Transform\<close> is the very
  value that the expression \<open>common_idl._0_hpp.Transform\<close> had when line 12 evaluated it, in
  the state the first nine statements (lines 1 to 11) had reached: the assignment binds
  the reference it is given, and no later statement rebinds the name.
\<close>

theorem transform_is_alias:
  assumes "run (corbaserver_init X) (init w) = (None, s)"
  shows "\<exists>s9 T s10.
           run (take 9 (corbaserver_init X)) (init w) = (None, s9) \<and>
           attr X (attr X (name ''common_idl'') ''_0_hpp'') ''Transform'' s9 = (Inr T, s10) \<and>
           map_of (ns s) ''Transform'' = Some (Assigned, T)"
proof -
  let ?rest = "[assign ''Transform'' (attr X (attr X (name ''common_idl'') ''_0_hpp'') ''Transform''),
      from_import X ''.problem_solver'' [''ProblemSolver'', ''newProblem'', ''loadServerPlugin''],
      from_import X ''.benchmark'' [''Benchmark'']]"
  have "run (take 9 (corbaserver_init X) @ ?rest) (init w) = (None, s)"
    by (subst corbaserver_init_split [symmetric]) (rule assms)
  then obtain s9 where s9: "run (take 9 (corbaserver_init X)) (init w) = (None, s9)"
    and rest: "run ?rest s9 = (None, s)"
    unfolding run_append by (auto split: prod.splits option.splits)
  from rest obtain sa sb
    where a: "assign ''Transform'' (attr X (attr X (name ''common_idl'') ''_0_hpp'') ''Transform'') s9
                = (None, sa)"
      and b: "from_import X ''.problem_solver'' [''ProblemSolver'', ''newProblem'', ''loadServerPlugin''] sa
                = (None, sb)"
      and c: "from_import X ''.benchmark'' [''Benchmark''] sb = (None, s)"
    by (elim run_ok_ConsE) simp
  from assign_ok [OF a] obtain T s10
    where T: "attr X (attr X (name ''common_idl'') ''_0_hpp'') ''Transform'' s9 = (Inr T, s10)"
      and sa: "sa = bind_name ''Transform'' Assigned T s10"
    by blast
  from sa have "map_of (ns sa) ''Transform'' = Some (Assigned, T)"
    by (simp add: bind_name_def update_conv')
  with from_import3_ok [OF b] have "map_of (ns sb) ''Transform'' = Some (Assigned, T)"
    by (elim exE conjE) (simp add: update_conv')
  with from_import1_ok [OF c] have "map_of (ns s) ''Transform'' = Some (Assigned, T)"
    by (elim exE conjE) (simp add: update_conv')
  with s9 T show ?thesis
    by blast
qed

theorem transform_is_alias_witness:
  "run (corbaserver_init ext_ok) (init 0) = (None, corbaserver_final) \<and>
   (\<exists>s9 T s10.
      run (take 9 (corbaserver_init ext_ok)) (init 0) = (None, s9) \<and>
      attr ext_ok (attr ext_ok (name ''common_idl'') ''_0_hpp'') ''Transform'' s9 = (Inr T, s10) \<and>
      map_of (ns corbaserver_final) ''Transform'' = Some (Assigned, T))"
  using transform_is_alias [OF corbaserver_init_ext_ok] corbaserver_init_ext_ok
  by blast

subsection \<open>Log properties, statement by statement\<close>

lemma spec_lit: "spec_e P E (lit v)"
  by (simp add: spec_e_def lit_def)

lemma spec_name: "(\<And>tr x. P tr \<Longrightarrow> E x tr) \<Longrightarrow> spec_e P E (name n)"
  by (simp add: spec_e_def name_def split: option.splits)

lemma spec_external: "ok_ev P E ev \<Longrightarrow> spec_e P E (external f ev)"
  by (auto simp: spec_e_def ok_ev_def external_def split: prod.splits sum.splits)

lemma spec_attr:
  assumes "spec_e P E e" and "\<And>v. ok_ev P E (EvGetAttr v a)"
  shows "spec_e P E (attr X e a)"
  unfolding spec_e_def
proof (intro allI impI)
  fix s :: "'a pstate"
  assume P: "P (trace s)"
  obtain r s1 where e: "e s = (r, s1)"
    by (cases "e s")
  show "case attr X e a s of (Inl x, s') \<Rightarrow> E x (trace s') | (Inr v, s') \<Rightarrow> P (trace s')"
  proof (cases r)
    case (Inl x)
    with assms(1) P e show ?thesis
      by (auto simp: spec_e_def attr_def)
  next
    case (Inr v)
    with assms(1) P e have "P (trace s1)"
      by (auto simp: spec_e_def)
    with spec_external [OF assms(2) [of v], of "get_attr X v a"] e Inr show ?thesis
      by (auto simp: spec_e_def attr_def)
  qed
qed

lemma spec_eval_list: "list_all (spec_e P E) es \<Longrightarrow> spec_e P E (eval_list es)"
proof (induction es)
  case Nil
  show ?case by (simp add: spec_e_def)
next
  case (Cons e es)
  then have e: "spec_e P E e" and es: "spec_e P E (eval_list es)"
    by simp_all
  show ?case
    unfolding spec_e_def
  proof (intro allI impI)
    fix s :: "'a pstate"
    assume P: "P (trace s)"
    obtain r s1 where r: "e s = (r, s1)" by (cases "e s")
    obtain q s2 where q: "eval_list es s1 = (q, s2)" by (cases "eval_list es s1")
    from e P r have 1: "case r of Inl x \<Rightarrow> E x (trace s1) | Inr v \<Rightarrow> P (trace s1)"
      by (auto simp: spec_e_def)
    show "case eval_list (e # es) s of (Inl x, s') \<Rightarrow> E x (trace s')
            | (Inr v, s') \<Rightarrow> P (trace s')"
    proof (cases r)
      case (Inl x)
      with 1 r show ?thesis by simp
    next
      case (Inr v)
      with 1 have "P (trace s1)" by simp
      with es q have "case q of Inl x \<Rightarrow> E x (trace s2) | Inr v \<Rightarrow> P (trace s2)"
        by (auto simp: spec_e_def)
      with r q Inr show ?thesis
        by (auto split: sum.splits)
    qed
  qed
qed

lemma spec_list_display: "list_all (spec_e P E) es \<Longrightarrow> spec_e P E (list_display es)"
  using spec_eval_list [of P E es]
  by (auto simp: spec_e_def list_display_def split: prod.splits sum.splits)

lemma spec_apply:
  assumes f: "spec_e P E f" and args: "list_all (spec_e P E) args"
    and kw: "list_all (spec_e P E) kws"
    and ev: "\<And>fv as ks. ok_ev P E (ev fv as ks)"
  shows "spec_e P E (\<lambda>s.
     case f s of
        (Inl x, s1) \<Rightarrow> (Inl x, s1)
      | (Inr fv, s1) \<Rightarrow>
          (case eval_list args s1 of
             (Inl x, s2) \<Rightarrow> (Inl x, s2)
           | (Inr as, s2) \<Rightarrow>
               (case eval_list kws s2 of
                  (Inl x, s3) \<Rightarrow> (Inl x, s3)
                | (Inr ks, s3) \<Rightarrow> external (g fv as ks) (ev fv as ks) s3)))"
  unfolding spec_e_def
proof (intro allI impI)
  fix s :: "'a pstate"
  assume P: "P (trace s)"
  note A = spec_eval_list [OF args] and K = spec_eval_list [OF kw]
  obtain r1 s1 where r1: "f s = (r1, s1)" by (cases "f s")
  obtain r2 s2 where r2: "eval_list args s1 = (r2, s2)" by (cases "eval_list args s1")
  obtain r3 s3 where r3: "eval_list kws s2 = (r3, s3)" by (cases "eval_list kws s2")
  from f P r1 have 1: "case r1 of Inl x \<Rightarrow> E x (trace s1) | Inr v \<Rightarrow> P (trace s1)"
    by (auto simp: spec_e_def)
  show "case (case f s of
        (Inl x, s1) \<Rightarrow> (Inl x, s1)
      | (Inr fv, s1) \<Rightarrow>
          (case eval_list args s1 of
             (Inl x, s2) \<Rightarrow> (Inl x, s2)
           | (Inr as, s2) \<Rightarrow>
               (case eval_list kws s2 of
                  (Inl x, s3) \<Rightarrow> (Inl x, s3)
                | (Inr ks, s3) \<Rightarrow> external (g fv as ks) (ev fv as ks) s3))) of
         (Inl x, s') \<Rightarrow> E x (trace s') | (Inr v, s') \<Rightarrow> P (trace s')"
  proof (cases r1)
    case (Inl x)
    with 1 r1 show ?thesis by simp
  next
    case fv: (Inr fv)
    with 1 have "P (trace s1)" by simp
    with A r2 have 2: "case r2 of Inl x \<Rightarrow> E x (trace s2) | Inr v \<Rightarrow> P (trace s2)"
      by (auto simp: spec_e_def)
    show ?thesis
    proof (cases r2)
      case (Inl x)
      with 2 r1 r2 fv show ?thesis by simp
    next
      case as: (Inr as)
      with 2 have "P (trace s2)" by simp
      with K r3 have 3: "case r3 of Inl x \<Rightarrow> E x (trace s3) | Inr v \<Rightarrow> P (trace s3)"
        by (auto simp: spec_e_def)
      show ?thesis
      proof (cases r3)
        case (Inl x)
        with 3 r1 r2 r3 fv as show ?thesis by simp
      next
        case ks: (Inr ks)
        with 3 have "P (trace s3)" by simp
        with spec_external [OF ev [of fv as ks], of "g fv as ks"]
        have "case external (g fv as ks) (ev fv as ks) s3 of
                (Inl x, s') \<Rightarrow> E x (trace s') | (Inr v, s') \<Rightarrow> P (trace s')"
          by (simp add: spec_e_def)
        with r1 r2 r3 fv as ks show ?thesis by simp
      qed
    qed
  qed
qed

lemma spec_call:
  assumes "spec_e P E f" and "list_all (spec_e P E) args"
    and "list_all (spec_e P E) (map snd kwargs)"
    and "\<And>fv as ks. ok_ev P E (EvCall fv as (zip (map fst kwargs) ks))"
  shows "spec_e P E (call X f args kwargs)"
proof -
  have "call X f args kwargs = (\<lambda>s.
     case f s of
        (Inl x, s1) \<Rightarrow> (Inl x, s1)
      | (Inr fv, s1) \<Rightarrow>
          (case eval_list args s1 of
             (Inl x, s2) \<Rightarrow> (Inl x, s2)
           | (Inr as, s2) \<Rightarrow>
               (case eval_list (map snd kwargs) s2 of
                  (Inl x, s3) \<Rightarrow> (Inl x, s3)
                | (Inr ks, s3) \<Rightarrow>
                    external (call_fn X fv as (zip (map fst kwargs) ks))
                      (EvCall fv as (zip (map fst kwargs) ks)) s3)))"
    by (rule ext) (simp add: call_def)
  with spec_apply [OF assms(1-3), of "\<lambda>fv as ks. EvCall fv as (zip (map fst kwargs) ks)"
      "\<lambda>fv as ks. call_fn X fv as (zip (map fst kwargs) ks)"] assms(4)
  show ?thesis by simp
qed

lemma spec_invoke:
  assumes "spec_e P E e" and "list_all (spec_e P E) args"
    and "list_all (spec_e P E) (map snd kwargs)"
    and "\<And>v as ks. ok_ev P E (EvInvoke v m as (zip (map fst kwargs) ks))"
  shows "spec_e P E (invoke X e m args kwargs)"
proof -
  have "invoke X e m args kwargs = (\<lambda>s.
     case e s of
        (Inl x, s1) \<Rightarrow> (Inl x, s1)
      | (Inr fv, s1) \<Rightarrow>
          (case eval_list args s1 of
             (Inl x, s2) \<Rightarrow> (Inl x, s2)
           | (Inr as, s2) \<Rightarrow>
               (case eval_list (map snd kwargs) s2 of
                  (Inl x, s3) \<Rightarrow> (Inl x, s3)
                | (Inr ks, s3) \<Rightarrow>
                    external (invoke_method X fv m as (zip (map fst kwargs) ks))
                      (EvInvoke fv m as (zip (map fst kwargs) ks)) s3)))"
    by (rule ext) (simp add: invoke_def)
  with spec_apply [OF assms(1-3), of "\<lambda>fv as ks. EvInvoke fv m as (zip (map fst kwargs) ks)"
      "\<lambda>fv as ks. invoke_method X fv m as (zip (map fst kwargs) ks)"] assms(4)
  show ?thesis by simp
qed

lemma spec_import_stmt: "ok_ev P E (EvImport m) \<Longrightarrow> spec_s P E (import_stmt X m)"
  using spec_external [of P E "EvImport m" "import_module X m"]
  by (auto simp: spec_e_def spec_s_def import_stmt_def bind_name_def
      split: prod.splits sum.splits)

lemma spec_import_names:
  assumes "\<And>n. ok_ev P E (EvGetAttr mv n)"
    and conv: "\<forall>mv n x tr. E x (tr @ [EvGetAttr mv n (Inl x)])
                 \<longrightarrow> E (import_error n x) (tr @ [EvGetAttr mv n (Inl x)])"
  shows "spec_s P E (import_names X m mv names)"
proof (induction names)
  case Nil
  show ?case by (simp add: spec_s_def)
next
  case (Cons n names)
  show ?case
    unfolding spec_s_def
  proof (intro allI impI)
    fix s :: "'a pstate"
    assume P: "P (trace s)"
    obtain r s1 where r: "external (get_attr X mv n) (EvGetAttr mv n) s = (r, s1)"
      by (cases "external (get_attr X mv n) (EvGetAttr mv n) s")
    with spec_external [OF assms(1) [of n], of "get_attr X mv n"] P
    have 1: "case r of Inl x \<Rightarrow> E x (trace s1) | Inr v \<Rightarrow> P (trace s1)"
      by (auto simp: spec_e_def)
    from r have tr: "trace s1 = trace s @ [EvGetAttr mv n r]"
      by (auto simp: external_def split: prod.splits)
    show "case import_names X m mv (n # names) s of
            (Some x, s') \<Rightarrow> E x (trace s') | (None, s') \<Rightarrow> P (trace s')"
    proof (cases r)
      case (Inl x)
      with 1 tr have "E x (trace s @ [EvGetAttr mv n (Inl x)])"
        by simp
      with conv have "E (import_error n x) (trace s @ [EvGetAttr mv n (Inl x)])"
        by blast
      with r tr Inl show ?thesis by simp
    next
      case (Inr v)
      with 1 have "P (trace (bind_name n (FromModule m) v s1))"
        by (simp add: bind_name_def)
      with Cons.IH r Inr show ?thesis
        by (simp add: spec_s_def)
    qed
  qed
qed

lemma spec_from_import:
  assumes "ok_ev P E (EvImport m)" and "\<And>mv n. ok_ev P E (EvGetAttr mv n)"
    and conv: "\<forall>mv n x tr. E x (tr @ [EvGetAttr mv n (Inl x)])
                 \<longrightarrow> E (import_error n x) (tr @ [EvGetAttr mv n (Inl x)])"
  shows "spec_s P E (from_import X m names)"
  unfolding spec_s_def
proof (intro allI impI)
  fix s :: "'a pstate"
  assume P: "P (trace s)"
  obtain r s1 where r: "external (import_module X m) (EvImport m) s = (r, s1)"
    by (cases "external (import_module X m) (EvImport m) s")
  with spec_external [OF assms(1), of "import_module X m"] P
  have 1: "case r of Inl x \<Rightarrow> E x (trace s1) | Inr v \<Rightarrow> P (trace s1)"
    by (auto simp: spec_e_def)
  show "case from_import X m names s of
          (Some x, s') \<Rightarrow> E x (trace s') | (None, s') \<Rightarrow> P (trace s')"
  proof (cases r)
    case (Inl x)
    with 1 r show ?thesis by (simp add: from_import_def)
  next
    case (Inr mv)
    with 1 have "P (trace s1)" by simp
    with spec_import_names [of P E mv X m names, OF assms(2) conv] r Inr show ?thesis
      by (simp add: from_import_def spec_s_def)
  qed
qed

lemma spec_assign: "spec_e P E e \<Longrightarrow> spec_s P E (assign n e)"
  by (auto simp: spec_e_def spec_s_def assign_def bind_name_def split: prod.splits sum.splits)

lemma spec_expr_stmt: "spec_e P E e \<Longrightarrow> spec_s P E (expr_stmt e)"
  by (auto simp: spec_e_def spec_s_def expr_stmt_def split: prod.splits sum.splits)

lemma spec_run: "list_all (spec_s P E) sts \<Longrightarrow> spec_s P E (run sts)"
proof (induction sts)
  case Nil
  show ?case by (simp add: spec_s_def)
next
  case (Cons st sts)
  then have st: "spec_s P E st" and sts: "spec_s P E (run sts)"
    by simp_all
  show ?case
    unfolding spec_s_def
  proof (intro allI impI)
    fix s :: "'a pstate"
    assume P: "P (trace s)"
    obtain r s1 where r: "st s = (r, s1)" by (cases "st s")
    with st P have 1: "case r of Some x \<Rightarrow> E x (trace s1) | None \<Rightarrow> P (trace s1)"
      by (auto simp: spec_s_def)
    show "case run (st # sts) s of (Some x, s') \<Rightarrow> E x (trace s') | (None, s') \<Rightarrow> P (trace s')"
    proof (cases r)
      case None
      with 1 sts r show ?thesis
        by (simp add: spec_s_def)
    next
      case (Some x)
      with 1 r show ?thesis by simp
    qed
  qed
qed

lemma list_all_NilI: "list_all P []"
  by simp

lemma list_all_ConsI: "P x \<Longrightarrow> list_all P xs \<Longrightarrow> list_all P (x # xs)"
  by simp

text \<open>
  The two files satisfy every such pair of properties that no exception raised without an
  operation breaks, that the operations the files perform keep (none has keyword
  arguments), and that a from-import's change of exception keeps.
\<close>

lemma spec_tests_robot:
  assumes "\<And>tr x. P tr \<Longrightarrow> E x tr"
    and "\<And>ev. (\<And>r. kwargs_of (ev r) = []) \<Longrightarrow> (\<And>r. outcome_of (ev r) = r) \<Longrightarrow> ok_ev P E ev"
    and "\<forall>mv n x tr. E x (tr @ [EvGetAttr mv n (Inl x)])
           \<longrightarrow> E (import_error n x) (tr @ [EvGetAttr mv n (Inl x)])"
  shows "spec_s P E (run (tests_robot X))"
proof -
  note from_import = spec_from_import [of P E, OF _ _ assms(3)]
  show ?thesis
    unfolding tests_robot_def
    by (intro spec_run from_import spec_assign spec_expr_stmt spec_call spec_invoke spec_attr
        spec_name spec_lit spec_list_display assms(1,2)
        list_all_NilI list_all_ConsI | simp)+
qed

lemma spec_corbaserver_stmts:
  assumes "\<And>tr x. P tr \<Longrightarrow> E x tr"
    and "\<And>ev. (\<And>r. kwargs_of (ev r) = []) \<Longrightarrow> (\<And>r. outcome_of (ev r) = r) \<Longrightarrow> ok_ev P E ev"
    and "\<forall>mv n x tr. E x (tr @ [EvGetAttr mv n (Inl x)])
           \<longrightarrow> E (import_error n x) (tr @ [EvGetAttr mv n (Inl x)])"
  shows "list_all (spec_s P E) (corbaserver_init X)"
proof -
  note from_import = spec_from_import [of P E, OF _ _ assms(3)]
  show ?thesis
    unfolding corbaserver_init_def
    by (intro from_import spec_import_stmt spec_assign spec_expr_stmt spec_call
        spec_invoke spec_attr spec_name spec_lit spec_list_display assms(1,2)
        list_all_NilI list_all_ConsI | simp)+
qed

lemma run_stop: "st s = (Some x, s1) \<Longrightarrow> run (st # sts) s = (Some x, s1)"
  by simp

lemma tests_robot_ext_sphere_fails:
  "run (tests_robot ext_sphere_fails) (init 0) =
     (Some (Exn ''hpp.Error'' ''createSphere''), tests_robot_stopped)"
  unfolding tests_robot_def init_def
  apply (rule run_step, (simp add: ext_sphere_fails_def ext_ok_def fresh_def sem_defs; fail))+
  apply (rule run_stop)
  apply (simp add: ext_sphere_fails_def ext_ok_def fresh_def sem_defs tests_robot_stopped_def)
  done

lemma spec_s_init:
  assumes "spec_s P E st" and "P []" and "st (init w) = (r, s)"
  shows "case r of Some x \<Rightarrow> E x (trace s) | None \<Rightarrow> P (trace s)"
proof -
  from assms(2) have "P (trace (init w))"
    by (simp add: init_def)
  from assms(1) [unfolded spec_s_def, rule_format, OF this] assms(3) show ?thesis
    by simp
qed

lemma raised_as_outcome: "outcome_of e = Inl x \<Longrightarrow> raised_as x e"
  by (cases e) simp_all

lemma ok_ev_all_ok: "(\<And>r. outcome_of (ev r) = r) \<Longrightarrow> ok_ev all_ok ends_raising ev"
  by (auto simp: ok_ev_def all_ok_def ends_raising_def raised_as_outcome split: sum.splits)

lemma ends_raising_import_error:
  assumes "ends_raising x (tr @ [EvGetAttr mv n (Inl x)])"
  shows "ends_raising (import_error n x) (tr @ [EvGetAttr mv n (Inl x)])"
  using assms by (simp add: ends_raising_def all_ok_def)

lemma ok_ev_no_kwargs:
  "(\<And>r. kwargs_of (ev r) = []) \<Longrightarrow>
     ok_ev (list_all (\<lambda>e. kwargs_of e = [])) (\<lambda>x. list_all (\<lambda>e. kwargs_of e = [])) ev"
  by (auto simp: ok_ev_def split: sum.splits)

lemma ends_raising_last:
  assumes "ends_raising y tr" and "i < length tr" and "outcome_of (tr ! i) = Inl x"
  shows "raised_as y (tr ! i) \<and> Suc i = length tr"
proof -
  from assms(2,3) have "\<not> all_ok tr"
    by (auto simp: all_ok_def list_all_length)
  with assms(1) have ne: "tr \<noteq> []" and bl: "all_ok (butlast tr)"
    and l: "raised_as y (last tr)"
    by (auto simp: ends_raising_def)
  have "\<not> i < length (butlast tr)"
  proof
    assume "i < length (butlast tr)"
    with bl have "\<not> isl (outcome_of (butlast tr ! i))"
      by (simp add: all_ok_def list_all_length)
    with \<open>i < length (butlast tr)\<close> assms(3) show False
      by (simp add: nth_butlast)
  qed
  with assms(2) have i: "i = length tr - 1"
    by simp
  with ne have "tr ! i = last tr"
    by (simp add: last_conv_nth)
  with l i ne show ?thesis
    by (cases tr) auto
qed

lemma tests_robot_ext_no_client:
  "run (tests_robot ext_no_client) (init 0) =
     (Some (Exn ''ImportError'' ''cannot import name Client''), tests_robot_no_client)"
  unfolding tests_robot_def init_def
  apply (rule run_stop)
  apply (simp add: ext_no_client_def ext_ok_def fresh_def sem_defs import_error_def
      tests_robot_no_client_def)
  done

section \<open>Exceptions and arguments\<close>

text \<open>
  C5. Neither file has a handler. Whatever the environment, if an operation of a run of
  \<^verbatim>\<open>tests/robot.py\<close> or of the module body of \<open>hpp.corbaserver\<close> raised \<open>x\<close>, that
  operation is the last one the run performed: no later call is made. If the operation is
  a remote call, or any operation other than the read of an attribute, the run ended with
  exactly the exception \<open>x\<close>. If it is the read of an attribute, the run ended with \<open>x\<close>
  or, where a from-import read the name, with what Python makes of \<open>x\<close> there: ImportError
  for an AttributeError.
\<close>

theorem exception_propagates:
  assumes "prog = tests_robot X \<or> prog = corbaserver_init X"
    and "run prog (init w) = (r, s)"
    and "i < length (trace s)" and "outcome_of (trace s ! i) = Inl x"
  shows "Suc i = length (trace s) \<and>
         (\<not> attribute_read (trace s ! i) \<longrightarrow> r = Some x) \<and>
         (r = Some x \<or>
          (\<exists>v n. trace s ! i = EvGetAttr v n (Inl x) \<and> r = Some (import_error n x)))"
proof -
  from assms(1) have "spec_s all_ok ends_raising (run prog)"
  proof
    assume "prog = tests_robot X"
    moreover have "spec_s all_ok ends_raising (run (tests_robot X))"
      by (rule spec_tests_robot)
        (simp_all add: ok_ev_all_ok ends_raising_import_error, simp add: ends_raising_def)
    ultimately show ?thesis
      by simp
  next
    assume "prog = corbaserver_init X"
    moreover have "list_all (spec_s all_ok ends_raising) (corbaserver_init X)"
      by (rule spec_corbaserver_stmts)
        (simp_all add: ok_ev_all_ok ends_raising_import_error, simp add: ends_raising_def)
    ultimately show ?thesis
      by (simp add: spec_run)
  qed
  moreover have "all_ok []"
    by (simp add: all_ok_def)
  ultimately have post: "case r of Some y \<Rightarrow> ends_raising y (trace s) | None \<Rightarrow> all_ok (trace s)"
    using assms(2) by (rule spec_s_init)
  show ?thesis
  proof (cases r)
    case None
    with post assms(3,4) show ?thesis
      by (auto simp: all_ok_def list_all_length)
  next
    case (Some y)
    with post have "ends_raising y (trace s)"
      by simp
    from ends_raising_last [OF this assms(3,4)]
    have last: "Suc i = length (trace s)" and y: "raised_as y (trace s ! i)"
      by simp_all
    from y assms(4) Some
    have "(\<not> attribute_read (trace s ! i) \<longrightarrow> r = Some x) \<and>
          (r = Some x \<or>
           (\<exists>v n. trace s ! i = EvGetAttr v n (Inl x) \<and> r = Some (import_error n x)))"
      by (cases "trace s ! i") auto
    with last show ?thesis
      by simp
  qed
qed

theorem exception_propagates_witness:
  "run (tests_robot ext_sphere_fails) (init 0) =
     (Some (Exn ''hpp.Error'' ''createSphere''), tests_robot_stopped) \<and>
   8 < length (trace tests_robot_stopped) \<and>
   outcome_of (trace tests_robot_stopped ! 8) = Inl (Exn ''hpp.Error'' ''createSphere'') \<and>
   \<not> attribute_read (trace tests_robot_stopped ! 8) \<and>
   Suc 8 = length (trace tests_robot_stopped) \<and>
   map fst (invocations (trace tests_robot_stopped)) =
     [''createRobot'', ''appendJoint'', ''createSphere'']"
proof -
  have 1: "8 < length (trace tests_robot_stopped)"
    by (simp add: tests_robot_stopped_def)
  have 2: "outcome_of (trace tests_robot_stopped ! 8) = Inl (Exn ''hpp.Error'' ''createSphere'')"
    by (simp add: tests_robot_stopped_def)
  have 3: "map fst (invocations (trace tests_robot_stopped)) =
     [''createRobot'', ''appendJoint'', ''createSphere'']"
    by (simp add: tests_robot_stopped_def)
  have 4: "\<not> attribute_read (trace tests_robot_stopped ! 8)"
    by (simp add: tests_robot_stopped_def)
  from exception_propagates [OF disjI1 [OF refl] tests_robot_ext_sphere_fails 1 2]
    tests_robot_ext_sphere_fails 1 2 3 4
  show ?thesis
    by blast
qed

text \<open>
  C7. Whatever the environment and however the run ends, no operation of a run of
  \<^verbatim>\<open>tests/robot.py\<close> is given a keyword argument; and a run that completes has made the
  five method calls with 1, 5, 2, 4 and 1 positional arguments.
\<close>

theorem tests_robot_positional:
  assumes "run (tests_robot X) (init w) = (r, s)"
  shows "list_all (\<lambda>e. kwargs_of e = []) (trace s) \<and>
         (r = None \<longrightarrow>
            map (\<lambda>(m, as, ks). (m, length as, ks)) (invocations (trace s)) =
              [(''createRobot'', 1, []), (''appendJoint'', 5, []), (''createSphere'', 2, []),
               (''addObjectToJoint'', 4, []), (''setRobot'', 1, [])])"
proof -
  have "spec_s (list_all (\<lambda>e. kwargs_of e = [])) (\<lambda>x. list_all (\<lambda>e. kwargs_of e = []))
          (run (tests_robot X))"
    by (rule spec_tests_robot) (simp_all add: ok_ev_no_kwargs)
  from spec_s_init [OF this _ assms] have "list_all (\<lambda>e. kwargs_of e = []) (trace s)"
    by (cases r) simp_all
  moreover have "map (\<lambda>(m, as, ks). (m, length as, ks)) (invocations (trace s)) =
              [(''createRobot'', 1, []), (''appendJoint'', 5, []), (''createSphere'', 2, []),
               (''addObjectToJoint'', 4, []), (''setRobot'', 1, [])]" if "r = None"
  proof -
    from assms that have "run (tests_robot X) (init w) = (None, s)"
      by simp
    from tests_robot_ok [OF this] show ?thesis
      by (elim exE conjE) simp
  qed
  ultimately show ?thesis
    by blast
qed

theorem tests_robot_positional_witness:
  "run (tests_robot ext_ok) (init 0) = (None, tests_robot_final) \<and>
   list_all (\<lambda>e. kwargs_of e = []) (trace tests_robot_final) \<and>
   map (\<lambda>(m, as, ks). (m, length as, ks)) (invocations (trace tests_robot_final)) =
     [(''createRobot'', 1, []), (''appendJoint'', 5, []), (''createSphere'', 2, []),
      (''addObjectToJoint'', 4, []), (''setRobot'', 1, [])]"
  using tests_robot_positional [OF tests_robot_ext_ok] tests_robot_ext_ok
  by blast

section \<open>The order of the facade module's operations\<close>

lemma import_stmt_cases:
  assumes "import_stmt X m s = (r, s')"
  shows "(\<exists>x. r = Some x \<and> ns s' = ns s \<and> trace s' = trace s @ [EvImport m (Inl x)]) \<or>
         (\<exists>v. r = None \<and> ns s' = AList.update m (Imported, v) (ns s) \<and>
              trace s' = trace s @ [EvImport m (Inr v)])"
  using assms
  by (auto simp: import_stmt_def external_def bind_name_def split: prod.splits sum.splits)

lemma name_method_stmt_cases:
  assumes "expr_stmt (invoke X (name c) m args []) s = (r, s')"
    and "map_of (ns s) c = Some (how, cv)" and "\<And>t. eval_list args t = (Inr as, t)"
  shows "ns s' = ns s \<and>
         ((\<exists>x. r = Some x \<and> trace s' = trace s @ [EvInvoke cv m as [] (Inl x)]) \<or>
          (\<exists>v. r = None \<and> trace s' = trace s @ [EvInvoke cv m as [] (Inr v)]))"
  using assms
  by (auto simp: expr_stmt_def invoke_def name_def external_def split: prod.splits sum.splits)

lemma list_all_drop: "list_all Q xs \<Longrightarrow> list_all Q (drop n xs)"
  by (auto simp: list_all_iff dest: in_set_dropD)

lemma take2_append:
  assumes "take 2 tr = [a, b]"
  shows "take 2 (tr @ ys) = [a, b]"
proof -
  from assms have "length (take 2 tr) = 2"
    by simp
  then have "2 \<le> length tr"
    by simp
  with assms show ?thesis
    by simp
qed

lemma ok_ev_take2: "ok_ev (\<lambda>tr. take 2 tr = [a, b]) (\<lambda>x tr. take 2 tr = [a, b]) ev"
  by (simp add: ok_ev_def take2_append split: sum.splits del: take_append)

lemma corbaserver_init_rest_keeps_first_two:
  assumes "run (drop 2 (corbaserver_init X)) s2 = (r, s)" and "take 2 (trace s2) = [a, b]"
  shows "take 2 (trace s) = [a, b]"
proof -
  have "list_all (spec_s (\<lambda>tr. take 2 tr = [a, b]) (\<lambda>x tr. take 2 tr = [a, b]))
          (corbaserver_init X)"
    by (rule spec_corbaserver_stmts) (simp_all add: ok_ev_take2)
  then have "spec_s (\<lambda>tr. take 2 tr = [a, b]) (\<lambda>x tr. take 2 tr = [a, b])
          (run (drop 2 (corbaserver_init X)))"
    by (intro spec_run list_all_drop)
  from this [unfolded spec_s_def, rule_format, OF assms(2)] assms(1) show ?thesis
    by (cases r) simp_all
qed

text \<open>
  C8. Whatever the environment, a run of the module body of \<open>hpp.corbaserver\<close> goes one of
  three ways. The import of omniORB raises: nothing else was done and no name is bound.
  Or \<open>omniORB.updateModule("hpp.corbaserver")\<close> raises: only omniORB was imported and
  bound. Or the first two operations of the log are the import of omniORB and the call of
  updateModule, which returned: every import of a stub module and every read of a name to
  re-export, if any, comes later in the log.
\<close>

theorem update_module_first:
  assumes "run (corbaserver_init X) (init w) = (r, s)"
  shows "(\<exists>x. r = Some x \<and> trace s = [EvImport ''omniORB'' (Inl x)] \<and> ns s = []) \<or>
         (\<exists>orb x. r = Some x \<and>
            trace s = [EvImport ''omniORB'' (Inr orb),
                       EvInvoke orb ''updateModule'' [PStr ''hpp.corbaserver''] [] (Inl x)] \<and>
            ns s = [(''omniORB'', Imported, orb)]) \<or>
         (\<exists>orb u. take 2 (trace s) =
                     [EvImport ''omniORB'' (Inr orb),
                      EvInvoke orb ''updateModule'' [PStr ''hpp.corbaserver''] [] (Inr u)])"
proof -
  let ?st1 = "import_stmt X ''omniORB''"
  let ?st2 = "expr_stmt (invoke X (name ''omniORB'') ''updateModule''
                [lit (PStr ''hpp.corbaserver'')] [])"
  let ?rest = "drop 2 (corbaserver_init X)"
  have split: "corbaserver_init X = ?st1 # ?st2 # ?rest"
    by (simp add: corbaserver_init_def)
  obtain r1 s1 where 1: "?st1 (init w) = (r1, s1)"
    by (cases "?st1 (init w)")
  from import_stmt_cases [OF 1]
  consider (raise1) x where "r1 = Some x" "ns s1 = []" "trace s1 = [EvImport ''omniORB'' (Inl x)]"
    | (ok1) orb where "r1 = None" "ns s1 = [(''omniORB'', Imported, orb)]"
        "trace s1 = [EvImport ''omniORB'' (Inr orb)]"
    by (auto simp: init_def)
  then show ?thesis
  proof cases
    case raise1
    from assms have "run (?st1 # ?st2 # ?rest) (init w) = (r, s)"
      by (subst split [symmetric])
    with 1 raise1(1) have "r = Some x" "s = s1"
      by simp_all
    with raise1 show ?thesis
      by simp
  next
    case ok1
    obtain r2 s2 where 2: "?st2 s1 = (r2, s2)"
      by (cases "?st2 s1")
    from assms have run: "run (?st1 # ?st2 # ?rest) (init w) = (r, s)"
      by (subst split [symmetric])
    have look: "map_of (ns s1) ''omniORB'' = Some (Imported, orb)"
      by (simp add: ok1(2))
    have args: "eval_list [lit (PStr ''hpp.corbaserver'')] t = (Inr [PStr ''hpp.corbaserver''], t)"
      for t :: "'a pstate"
      by (simp add: lit_def)
    from name_method_stmt_cases [OF 2 look args]
    consider (raise2) x where "r2 = Some x" "ns s2 = ns s1"
        "trace s2 = trace s1 @ [EvInvoke orb ''updateModule'' [PStr ''hpp.corbaserver''] [] (Inl x)]"
      | (ok2) u where "r2 = None"
        "trace s2 = trace s1 @ [EvInvoke orb ''updateModule'' [PStr ''hpp.corbaserver''] [] (Inr u)]"
      by blast
    then show ?thesis
    proof cases
      case raise2
      from run 1 2 ok1(1) raise2(1) have "r = Some x" "s = s2"
        by simp_all
      with raise2 ok1 show ?thesis
        by simp
    next
      case ok2
      from run 1 2 ok1(1) ok2(1) have rest: "run ?rest s2 = (r, s)"
        by simp
      from ok2(2) ok1(3) have "take 2 (trace s2) =
          [EvImport ''omniORB'' (Inr orb),
           EvInvoke orb ''updateModule'' [PStr ''hpp.corbaserver''] [] (Inr u)]"
        by simp
      from corbaserver_init_rest_keeps_first_two [OF rest this] show ?thesis
        by blast
    qed
  qed
qed

theorem update_module_first_witness:
  "run (corbaserver_init ext_ok) (init 0) = (None, corbaserver_final) \<and>
   take 2 (trace corbaserver_final) =
     [EvImport ''omniORB'' (Inr (PRef 0)),
      EvInvoke (PRef 0) ''updateModule'' [PStr ''hpp.corbaserver''] [] (Inr (PRef 1))] \<and>
   filter generated_stub (imported_modules (take 2 (trace corbaserver_final))) = []"
proof -
  from update_module_first [OF corbaserver_init_ext_ok]
  have "\<exists>orb u. take 2 (trace corbaserver_final) =
                     [EvImport ''omniORB'' (Inr orb),
                      EvInvoke orb ''updateModule'' [PStr ''hpp.corbaserver''] [] (Inr u)]"
    by simp
  then have "take 2 (trace corbaserver_final) =
     [EvImport ''omniORB'' (Inr (PRef 0)),
      EvInvoke (PRef 0) ''updateModule'' [PStr ''hpp.corbaserver''] [] (Inr (PRef 1))]"
    by (simp add: corbaserver_final_def)
  with corbaserver_init_ext_ok show ?thesis
    by (simp add: generated_stub_names)
qed

section \<open>What the test script does with results\<close>

lemma rel_lit: "rel_e (lit v) (lit v)"
  by (simp add: rel_e_def lit_def)

lemma rel_name: "rel_e (name n) (name n)"
  by (auto simp: rel_e_def name_def sim_def split: option.splits)

lemma rel_external: "rel_e (external f ev) (external f ev)"
  by (auto simp: rel_e_def external_def sim_def split: prod.splits)

lemma rel_eD:
  assumes "rel_e f f'" and "sim s s'" and "f s = (r, t)" and "f' s' = (r', t')"
  shows "r' = r" and "sim t t'"
proof -
  from assms(1,2) have "fst (f s) = fst (f' s') \<and> sim (snd (f s)) (snd (f' s'))"
    unfolding rel_e_def by blast
  with assms(3,4) show "r' = r" and "sim t t'"
    by simp_all
qed

lemma rel_attr:
  assumes "rel_e e e'"
  shows "rel_e (attr X e a) (attr (tamper g X) e' a)"
  unfolding rel_e_def
proof (intro allI impI)
  fix s s' :: "'a pstate"
  assume "sim s s'"
  with assms have r: "fst (e s) = fst (e' s')" and t: "sim (snd (e s)) (snd (e' s'))"
    by (simp_all add: rel_e_def)
  obtain r1 s1 where 1: "e s = (r1, s1)" by (cases "e s")
  obtain r2 s2 where 2: "e' s' = (r2, s2)" by (cases "e' s'")
  from r t 1 2 have eq: "r2 = r1" and sim: "sim s1 s2"
    by simp_all
  show "fst (attr X e a s) = fst (attr (tamper g X) e' a s') \<and>
        sim (snd (attr X e a s)) (snd (attr (tamper g X) e' a s'))"
  proof (cases r1)
    case (Inl x)
    with 1 2 eq sim show ?thesis
      by (simp add: attr_def)
  next
    case (Inr v)
    from rel_external [of "get_attr X v a" "EvGetAttr v a"] sim
    have "fst (external (get_attr X v a) (EvGetAttr v a) s1) =
            fst (external (get_attr X v a) (EvGetAttr v a) s2) \<and>
          sim (snd (external (get_attr X v a) (EvGetAttr v a) s1))
            (snd (external (get_attr X v a) (EvGetAttr v a) s2))"
      by (simp add: rel_e_def)
    with 1 2 eq Inr show ?thesis
      by (simp add: attr_def tamper_def)
  qed
qed

lemma rel_eval_list:
  "list_all2 rel_e es es' \<Longrightarrow> rel_e (eval_list es) (eval_list es')"
proof (induction es es' rule: list_all2_induct)
  case Nil
  show ?case by (simp add: rel_e_def)
next
  case (Cons e es e' es')
  show ?case
    unfolding rel_e_def
  proof (intro allI impI)
    fix s s' :: "'a pstate"
    assume "sim s s'"
    with Cons.hyps(1) have r: "fst (e s) = fst (e' s')" and t: "sim (snd (e s)) (snd (e' s'))"
      by (simp_all add: rel_e_def)
    obtain r1 s1 where 1: "e s = (r1, s1)" by (cases "e s")
    obtain r2 s2 where 2: "e' s' = (r2, s2)" by (cases "e' s'")
    from r t 1 2 have eq: "r2 = r1" and sim: "sim s1 s2"
      by simp_all
    from Cons.IH sim have "fst (eval_list es s1) = fst (eval_list es' s2)"
      and "sim (snd (eval_list es s1)) (snd (eval_list es' s2))"
      by (simp_all add: rel_e_def)
    with 1 2 eq sim show "fst (eval_list (e # es) s) = fst (eval_list (e' # es') s') \<and>
        sim (snd (eval_list (e # es) s)) (snd (eval_list (e' # es') s'))"
      by (cases r1; cases "eval_list es s1"; cases "eval_list es' s2")
        (auto split: sum.splits)
  qed
qed

lemma rel_list_display:
  assumes "list_all2 rel_e es es'"
  shows "rel_e (list_display es) (list_display es')"
  unfolding rel_e_def
proof (intro allI impI)
  fix s s' :: "'a pstate"
  assume "sim s s'"
  with rel_eval_list [OF assms] have "fst (eval_list es s) = fst (eval_list es' s')"
    and "sim (snd (eval_list es s)) (snd (eval_list es' s'))"
    by (simp_all add: rel_e_def)
  then show "fst (list_display es s) = fst (list_display es' s') \<and>
        sim (snd (list_display es s)) (snd (list_display es' s'))"
    by (cases "eval_list es s"; cases "eval_list es' s'")
      (auto simp: list_display_def split: sum.splits)
qed

text \<open>
  The three evaluations that precede a call: the callee or receiver, the positional
  arguments, the keyword arguments.
\<close>

lemma rel_operands:
  assumes "rel_e f f'" and "list_all2 rel_e args args'" and "list_all2 rel_e kws kws'"
    and "sim s s'"
    and k: "\<And>fv as ks t t'. sim t t' \<Longrightarrow> Q (k fv as ks t) (k' fv as ks t')"
    and stop: "\<And>x t t'. sim t t' \<Longrightarrow> Q (Inl x, t) (Inl x, t')"
  shows "Q (case f s of
        (Inl x, s1) \<Rightarrow> (Inl x, s1)
      | (Inr fv, s1) \<Rightarrow>
          (case eval_list args s1 of
             (Inl x, s2) \<Rightarrow> (Inl x, s2)
           | (Inr as, s2) \<Rightarrow>
               (case eval_list kws s2 of
                  (Inl x, s3) \<Rightarrow> (Inl x, s3)
                | (Inr ks, s3) \<Rightarrow> k fv as ks s3)))
     (case f' s' of
        (Inl x, s1) \<Rightarrow> (Inl x, s1)
      | (Inr fv, s1) \<Rightarrow>
          (case eval_list args' s1 of
             (Inl x, s2) \<Rightarrow> (Inl x, s2)
           | (Inr as, s2) \<Rightarrow>
               (case eval_list kws' s2 of
                  (Inl x, s3) \<Rightarrow> (Inl x, s3)
                | (Inr ks, s3) \<Rightarrow> k' fv as ks s3)))"
proof -
  obtain r1 s1 where 1: "f s = (r1, s1)" by (cases "f s")
  obtain r1' s1' where p1: "f' s' = (r1', s1')" by (cases "f' s'")
  from rel_eD [OF assms(1,4) 1 p1] have e1: "r1' = r1" and sim1: "sim s1 s1'"
    by simp_all
  obtain r2 s2 where 2: "eval_list args s1 = (r2, s2)" by (cases "eval_list args s1")
  obtain r2' s2' where p2: "eval_list args' s1' = (r2', s2')" by (cases "eval_list args' s1'")
  from rel_eD [OF rel_eval_list [OF assms(2)] sim1 2 p2]
  have e2: "r2' = r2" and sim2: "sim s2 s2'"
    by simp_all
  obtain r3 s3 where 3: "eval_list kws s2 = (r3, s3)" by (cases "eval_list kws s2")
  obtain r3' s3' where p3: "eval_list kws' s2' = (r3', s3')" by (cases "eval_list kws' s2'")
  from rel_eD [OF rel_eval_list [OF assms(3)] sim2 3 p3]
  have e3: "r3' = r3" and sim3: "sim s3 s3'"
    by simp_all
  show ?thesis
  proof (cases r1)
    case (Inl x)
    with 1 p1 e1 stop [OF sim1] show ?thesis by simp
  next
    case fv: (Inr fv)
    show ?thesis
    proof (cases r2)
      case (Inl x)
      with 1 p1 e1 fv 2 p2 e2 stop [OF sim2] show ?thesis by simp
    next
      case as: (Inr as)
      show ?thesis
      proof (cases r3)
        case (Inl x)
        with 1 p1 e1 fv 2 p2 e2 as 3 p3 e3 stop [OF sim3] show ?thesis by simp
      next
        case (Inr ks)
        with 1 p1 e1 fv 2 p2 e2 as 3 p3 e3 k [OF sim3, of fv as ks] show ?thesis by simp
      qed
    qed
  qed
qed

lemma rel_call:
  assumes "rel_e f f'" and "list_all2 rel_e args args'"
    and "list_all2 rel_e (map snd kwargs) (map snd kwargs)"
  shows "rel_e (call X f args kwargs) (call (tamper g X) f' args' kwargs)"
  unfolding rel_e_def
proof (intro allI impI)
  fix s s' :: "'a pstate"
  assume sim: "sim s s'"
  let ?Q = "\<lambda>p q :: outcome \<times> 'a pstate. fst p = fst q \<and> sim (snd p) (snd q)"
  have "?Q (call X f args kwargs s) (call (tamper g X) f' args' kwargs s')"
    unfolding call_def
  proof (rule rel_operands [OF assms sim, where Q = ?Q])
    fix fv as ks and t t' :: "'a pstate"
    assume "sim t t'"
    with rel_external [of "call_fn X fv as (zip (map fst kwargs) ks)"
        "EvCall fv as (zip (map fst kwargs) ks)"]
    show "?Q (external (call_fn X fv as (zip (map fst kwargs) ks))
                (EvCall fv as (zip (map fst kwargs) ks)) t)
             (external (call_fn (tamper g X) fv as (zip (map fst kwargs) ks))
                (EvCall fv as (zip (map fst kwargs) ks)) t')"
      by (simp add: rel_e_def tamper_def)
  qed simp
  then show "fst (call X f args kwargs s) = fst (call (tamper g X) f' args' kwargs s') \<and>
        sim (snd (call X f args kwargs s)) (snd (call (tamper g X) f' args' kwargs s'))" .
qed

lemma rel_invoke_external:
  assumes "sim t t'"
  shows "map_sum id (\<lambda>v. ()) (fst (external (invoke_method X v m as ks) (EvInvoke v m as ks) t)) =
         map_sum id (\<lambda>v. ())
           (fst (external (invoke_method (tamper g X) v m as ks) (EvInvoke v m as ks) t')) \<and>
         sim (snd (external (invoke_method X v m as ks) (EvInvoke v m as ks) t))
           (snd (external (invoke_method (tamper g X) v m as ks) (EvInvoke v m as ks) t'))"
  using assms
  by (cases "invoke_method X v m as ks (world t')")
    (auto simp: external_def tamper_def sim_def split: sum.splits)

lemma rel_invoke:
  assumes "rel_e e e'" and "list_all2 rel_e args args'"
    and "list_all2 rel_e (map snd kwargs) (map snd kwargs)"
  shows "rel_drop (invoke X e m args kwargs) (invoke (tamper g X) e' m args' kwargs)"
  unfolding rel_drop_def
proof (intro allI impI)
  fix s s' :: "'a pstate"
  assume sim: "sim s s'"
  let ?Q = "\<lambda>p q :: outcome \<times> 'a pstate.
      map_sum id (\<lambda>v. ()) (fst p) = map_sum id (\<lambda>v. ()) (fst q) \<and> sim (snd p) (snd q)"
  have "?Q (invoke X e m args kwargs s) (invoke (tamper g X) e' m args' kwargs s')"
    unfolding invoke_def
    by (rule rel_operands [OF assms sim, where Q = ?Q]) (simp_all add: rel_invoke_external)
  then show "map_sum id (\<lambda>v. ()) (fst (invoke X e m args kwargs s)) =
        map_sum id (\<lambda>v. ()) (fst (invoke (tamper g X) e' m args' kwargs s')) \<and>
        sim (snd (invoke X e m args kwargs s)) (snd (invoke (tamper g X) e' m args' kwargs s'))" .
qed

lemma sim_bind_name: "sim s t \<Longrightarrow> sim (bind_name n how v s) (bind_name n how v t)"
  by (simp add: sim_def bind_name_def)

lemma rel_import_names: "rel_e (import_names X m mv names) (import_names (tamper g X) m mv names)"
proof (induction names)
  case Nil
  show ?case by (simp add: rel_e_def)
next
  case (Cons n names)
  show ?case
    unfolding rel_e_def
  proof (intro allI impI)
    fix s s' :: "'a pstate"
    assume "sim s s'"
    with rel_external [of "get_attr X mv n" "EvGetAttr mv n"]
    have a: "fst (external (get_attr X mv n) (EvGetAttr mv n) s) =
             fst (external (get_attr X mv n) (EvGetAttr mv n) s')"
      and b: "sim (snd (external (get_attr X mv n) (EvGetAttr mv n) s))
               (snd (external (get_attr X mv n) (EvGetAttr mv n) s'))"
      by (simp_all add: rel_e_def)
    obtain r1 s1 where 1: "external (get_attr X mv n) (EvGetAttr mv n) s = (r1, s1)"
      by (cases "external (get_attr X mv n) (EvGetAttr mv n) s")
    obtain r2 s2 where 2: "external (get_attr X mv n) (EvGetAttr mv n) s' = (r2, s2)"
      by (cases "external (get_attr X mv n) (EvGetAttr mv n) s'")
    from a b 1 2 have eq: "r2 = r1" and sim: "sim s1 s2"
      by simp_all
    have g: "get_attr (tamper g X) = get_attr X"
      by (simp add: tamper_def)
    show "fst (import_names X m mv (n # names) s) =
            fst (import_names (tamper g X) m mv (n # names) s') \<and>
          sim (snd (import_names X m mv (n # names) s))
            (snd (import_names (tamper g X) m mv (n # names) s'))"
    proof (cases r1)
      case (Inl x)
      with 1 2 eq sim g show ?thesis by simp
    next
      case (Inr v)
      from Cons.IH sim_bind_name [OF sim, of n "FromModule m" v]
      have "fst (import_names X m mv names (bind_name n (FromModule m) v s1)) =
              fst (import_names (tamper g X) m mv names (bind_name n (FromModule m) v s2)) \<and>
            sim (snd (import_names X m mv names (bind_name n (FromModule m) v s1)))
              (snd (import_names (tamper g X) m mv names (bind_name n (FromModule m) v s2)))"
        by (simp add: rel_e_def)
      with 1 2 eq Inr g show ?thesis by simp
    qed
  qed
qed

lemma rel_from_import: "rel_e (from_import X m names) (from_import (tamper g X) m names)"
  unfolding rel_e_def
proof (intro allI impI)
  fix s s' :: "'a pstate"
  assume "sim s s'"
  with rel_external [of "import_module X m" "EvImport m"]
  have a: "fst (external (import_module X m) (EvImport m) s) =
           fst (external (import_module X m) (EvImport m) s')"
    and b: "sim (snd (external (import_module X m) (EvImport m) s))
             (snd (external (import_module X m) (EvImport m) s'))"
    by (simp_all add: rel_e_def)
  obtain r1 s1 where 1: "external (import_module X m) (EvImport m) s = (r1, s1)"
    by (cases "external (import_module X m) (EvImport m) s")
  obtain r2 s2 where 2: "external (import_module X m) (EvImport m) s' = (r2, s2)"
    by (cases "external (import_module X m) (EvImport m) s'")
  from a b 1 2 have eq: "r2 = r1" and sim: "sim s1 s2"
    by simp_all
  have g: "import_module (tamper g X) = import_module X"
    by (simp add: tamper_def)
  show "fst (from_import X m names s) = fst (from_import (tamper g X) m names s') \<and>
        sim (snd (from_import X m names s)) (snd (from_import (tamper g X) m names s'))"
  proof (cases r1)
    case (Inl x)
    with 1 2 eq sim g show ?thesis by (simp add: from_import_def)
  next
    case (Inr mv)
    from rel_import_names [of X m mv names g] sim
    have "fst (import_names X m mv names s1) = fst (import_names (tamper g X) m mv names s2) \<and>
          sim (snd (import_names X m mv names s1)) (snd (import_names (tamper g X) m mv names s2))"
      by (simp add: rel_e_def)
    with 1 2 eq Inr g show ?thesis by (simp add: from_import_def)
  qed
qed

lemma rel_assign:
  assumes "rel_e e e'"
  shows "rel_e (assign n e) (assign n e')"
  unfolding rel_e_def
proof (intro allI impI)
  fix s s' :: "'a pstate"
  assume "sim s s'"
  with assms have "fst (e s) = fst (e' s')" and "sim (snd (e s)) (snd (e' s'))"
    by (simp_all add: rel_e_def)
  then show "fst (assign n e s) = fst (assign n e' s') \<and>
        sim (snd (assign n e s)) (snd (assign n e' s'))"
    by (cases "e s"; cases "e' s'") (auto simp: assign_def sim_bind_name split: sum.splits)
qed

lemma rel_expr_stmt:
  assumes "rel_drop e e'"
  shows "rel_e (expr_stmt e) (expr_stmt e')"
  unfolding rel_e_def
proof (intro allI impI)
  fix s s' :: "'a pstate"
  assume "sim s s'"
  with assms have "map_sum id (\<lambda>v. ()) (fst (e s)) = map_sum id (\<lambda>v. ()) (fst (e' s'))"
    and "sim (snd (e s)) (snd (e' s'))"
    by (simp_all add: rel_drop_def)
  then show "fst (expr_stmt e s) = fst (expr_stmt e' s') \<and>
        sim (snd (expr_stmt e s)) (snd (expr_stmt e' s'))"
    by (cases "e s"; cases "e' s'") (auto simp: expr_stmt_def split: sum.splits)
qed

lemma rel_run: "list_all2 rel_e sts sts' \<Longrightarrow> rel_e (run sts) (run sts')"
proof (induction sts sts' rule: list_all2_induct)
  case Nil
  show ?case by (simp add: rel_e_def)
next
  case (Cons st sts st' sts')
  show ?case
    unfolding rel_e_def
  proof (intro allI impI)
    fix s s' :: "'a pstate"
    assume "sim s s'"
    with Cons.hyps(1) have "fst (st s) = fst (st' s')" and "sim (snd (st s)) (snd (st' s'))"
      by (simp_all add: rel_e_def)
    moreover from Cons.IH have "\<And>t t'. sim t t' \<Longrightarrow>
        fst (run sts t) = fst (run sts' t') \<and> sim (snd (run sts t)) (snd (run sts' t'))"
      by (simp add: rel_e_def)
    ultimately show "fst (run (st # sts) s) = fst (run (st' # sts') s') \<and>
        sim (snd (run (st # sts) s)) (snd (run (st' # sts') s'))"
      by (cases "st s"; cases "st' s'") (auto split: option.splits)
  qed
qed

lemma list_all2_ConsI: "R x y \<Longrightarrow> list_all2 R xs ys \<Longrightarrow> list_all2 R (x # xs) (y # ys)"
  by simp

lemma list_all2_NilI: "list_all2 R [] []"
  by simp

lemma rel_tests_robot: "rel_e (run (tests_robot X)) (run (tests_robot (tamper g X)))"
  unfolding tests_robot_def
  by (intro rel_run rel_from_import rel_assign rel_expr_stmt rel_call rel_invoke rel_attr
      rel_name rel_lit rel_list_display list_all2_ConsI list_all2_NilI | simp)+

text \<open>
  C6. Replace, in any environment, the value every successful method call returns by
  any other value. The run of \<^verbatim>\<open>tests/robot.py\<close> then ends the same way (completes, or
  raises the same exception), with the same names bound to the same objects, in the same
  world, after the same operations with the same arguments and the same outcomes except
  for the values the method calls returned: the script drops them and never tests them.
\<close>

theorem tests_robot_ignores_results:
  "fst (run (tests_robot (tamper g X)) (init w)) = fst (run (tests_robot X) (init w)) \<and>
   ns (snd (run (tests_robot (tamper g X)) (init w))) = ns (snd (run (tests_robot X) (init w))) \<and>
   world (snd (run (tests_robot (tamper g X)) (init w))) =
     world (snd (run (tests_robot X) (init w))) \<and>
   map erase (trace (snd (run (tests_robot (tamper g X)) (init w)))) =
     map erase (trace (snd (run (tests_robot X) (init w))))"
proof -
  have "sim (init w) (init w)"
    by (simp add: sim_def)
  with rel_tests_robot [of X g]
  have "fst (run (tests_robot X) (init w)) = fst (run (tests_robot (tamper g X)) (init w))"
    and "sim (snd (run (tests_robot X) (init w))) (snd (run (tests_robot (tamper g X)) (init w)))"
    unfolding rel_e_def by blast+
  then show ?thesis
    by (simp add: sim_def)
qed

text \<open>
  For instance, when every method call of \<open>ext_ok\<close> is made to return \<open>None\<close> instead of
  a fresh reference, the log changes in five places and nothing else does.
\<close>

lemma tests_robot_ext_tampered:
  "run (tests_robot (tamper (\<lambda>v m as w u. PNone) ext_ok)) (init 0) =
     (None, tests_robot_final\<lparr>trace := map erase (trace tests_robot_final)\<rparr>)"
  unfolding tests_robot_def init_def
  apply (rule run_step, (simp add: tamper_def ext_ok_def fresh_def sem_defs; fail))+
  apply (simp add: tests_robot_final_def)
  done

theorem tests_robot_ignores_results_witness:
  "run (tests_robot (tamper (\<lambda>v m as w u. PNone) ext_ok)) (init 0) =
     (None, tests_robot_final\<lparr>trace := map erase (trace tests_robot_final)\<rparr>) \<and>
   run (tests_robot ext_ok) (init 0) = (None, tests_robot_final) \<and>
   map erase (trace tests_robot_final) \<noteq> trace tests_robot_final \<and>
   map erase (map erase (trace tests_robot_final)) = map erase (trace tests_robot_final)"
proof -
  have "map erase (trace tests_robot_final) ! 4 \<noteq> trace tests_robot_final ! 4"
    by (simp add: tests_robot_final_def)
  then have "map erase (trace tests_robot_final) \<noteq> trace tests_robot_final"
    by metis
  moreover from tests_robot_ignores_results [of "\<lambda>v m as w u. PNone" ext_ok 0]
  have "map erase (map erase (trace tests_robot_final)) = map erase (trace tests_robot_final)"
    by (simp add: tests_robot_ext_tampered tests_robot_ext_ok)
  ultimately show ?thesis
    using tests_robot_ext_tampered tests_robot_ext_ok by blast
qed

end
